theory Spec2Isabelle
  imports Main
begin

section \<open>JavaScript values\<close>

text \<open>
  The route handles values produced by \<^verbatim>\<open>JSON.parse\<close> and inspects them dynamically
  (\<^verbatim>\<open>event: any\<close>).  They are modelled by one datatype.  \<open>JUndef\<close> is
  \<^verbatim>\<open>undefined\<close>, the value of an absent property.  Numbers are the integers (the
  numeric fields of the events are counts).  An object is the list of its properties; a
  property is looked up by its first occurrence.  Strings are lists of 8-bit characters,
  read as the code points U+0000 .. U+00FF.
\<close>

datatype json =
    JUndef
  | JNull
  | JBool bool
  | JNum int
  | JStr string
  | JArr "json list"
  | JObj "(string \<times> json) list"

datatype js_error = TypeError | SyntaxError

datatype outcome = Returned | Threw js_error

text \<open>JavaScript truthiness: what \<^verbatim>\<open>if (v)\<close>, \<^verbatim>\<open>!v\<close>, \<^verbatim>\<open>a || b\<close>
  and \<^verbatim>\<open>a && b\<close> test.\<close>

fun truthy :: "json \<Rightarrow> bool" where
  "truthy JUndef = False"
| "truthy JNull = False"
| "truthy (JBool b) = b"
| "truthy (JNum n) = (n \<noteq> 0)"
| "truthy (JStr s) = (s \<noteq> [])"
| "truthy (JArr xs) = True"
| "truthy (JObj kvs) = True"

text \<open>Reading a property of \<^verbatim>\<open>undefined\<close> or \<^verbatim>\<open>null\<close> raises a TypeError.\<close>

fun nullish :: "json \<Rightarrow> bool" where
  "nullish JUndef = True"
| "nullish JNull = True"
| "nullish v = False"

fun is_prim :: "json \<Rightarrow> bool" where
  "is_prim (JArr xs) = False"
| "is_prim (JObj kvs) = False"
| "is_prim v = True"

text \<open>
  \<^verbatim>\<open>a === b\<close>, which is also the key comparison of \<^verbatim>\<open>Map\<close> and
  \<^verbatim>\<open>Set\<close> on these values: primitives are compared by value, objects and arrays by
  identity.  Every object the route compares comes from a different parsed value, so
  two objects are never identical.
\<close>

definition strict_eq :: "json \<Rightarrow> json \<Rightarrow> bool" where
  "strict_eq a b = (is_prim a \<and> a = b)"

text \<open>\<^verbatim>\<open>v.k\<close> for a receiver \<open>v\<close> that is neither \<^verbatim>\<open>undefined\<close> nor
  \<^verbatim>\<open>null\<close>; none of the property names the route reads is inherited by a string,
  a number, a boolean or an array.\<close>

fun field :: "json \<Rightarrow> string \<Rightarrow> json" where
  "field (JObj kvs) k = (case map_of kvs k of None \<Rightarrow> JUndef | Some v \<Rightarrow> v)"
| "field v k = JUndef"

text \<open>\<^verbatim>\<open>v?.k\<close>\<close>

definition opt_field :: "json \<Rightarrow> string \<Rightarrow> json" where
  "opt_field v k = (if nullish v then JUndef else field v k)"

text \<open>\<^verbatim>\<open>a || b\<close>\<close>

definition or_else :: "json \<Rightarrow> json \<Rightarrow> json" where
  "or_else a b = (if truthy a then a else b)"

text \<open>\<^verbatim>\<open>s.startsWith(p)\<close>\<close>

definition startsWith :: "string \<Rightarrow> string \<Rightarrow> bool" where
  "startsWith s p = (take (length p) s = p)"

text \<open>\<^verbatim>\<open>s.replace(p, '')\<close> with a string pattern: the first occurrence of \<open>p\<close> is removed.\<close>

fun replace_first :: "string \<Rightarrow> string \<Rightarrow> string" where
  "replace_first p [] = []"
| "replace_first p (c # cs) =
     (if startsWith (c # cs) p then drop (length p) (c # cs) else c # replace_first p cs)"

text \<open>\<^verbatim>\<open>xs.findIndex(P)\<close>; \<open>None\<close> is the result \<open>-1\<close>.\<close>

fun findIndex :: "('a \<Rightarrow> bool) \<Rightarrow> 'a list \<Rightarrow> nat option" where
  "findIndex P [] = None"
| "findIndex P (x # xs) =
     (if P x then Some 0 else (case findIndex P xs of None \<Rightarrow> None | Some i \<Rightarrow> Some (Suc i)))"

section \<open>The session state\<close>

record Analyst =
  name :: json
  role :: json
  affiliation :: json
  esgFocus :: json
  esgCategories :: json

record InterviewMessage =
  analystName :: json
  msg_role :: json
  content :: json
  timestamp :: json

record SearchResult =
  tool :: json
  query :: json
  resultsCount :: json
  sources :: "json list"

record Progress =
  current :: json
  total :: json
  message :: json

record ErrorInfo =
  err_message :: json
  err_type :: json

text \<open>A \<^verbatim>\<open>Map\<close> is the list of its entries in insertion order.\<close>

type_synonym 'v js_map = "(json \<times> 'v) list"

record ResearchState =
  topic :: string
  phase :: json
  analysts :: "Analyst list"
  interviews :: "InterviewMessage list js_map"
  sections :: "json js_map"
  searches :: "SearchResult list"
  progress :: Progress
  error :: "ErrorInfo option"

definition map_has :: "'v js_map \<Rightarrow> json \<Rightarrow> bool" where
  "map_has m k = list_ex (\<lambda>e. strict_eq (fst e) k) m"

text \<open>\<^verbatim>\<open>m.set(k, v)\<close>: an existing key keeps its place.\<close>

fun map_set :: "'v js_map \<Rightarrow> json \<Rightarrow> 'v \<Rightarrow> 'v js_map" where
  "map_set [] k v = [(k, v)]"
| "map_set (e # m) k v = (if strict_eq (fst e) k then (fst e, v) # m else e # map_set m k v)"

text \<open>
  \<^verbatim>\<open>if (!m.has(k)) m.set(k, [])\<close>, and the position of the entry that
  \<^verbatim>\<open>m.get(k)\<close> then returns: the entry found, or the one just added at the end.
\<close>

definition ensure_entry :: "'v list js_map \<Rightarrow> json \<Rightarrow> 'v list js_map" where
  "ensure_entry m k = (if map_has m k then m else m @ [(k, [])])"

definition entry_index :: "'v js_map \<Rightarrow> json \<Rightarrow> nat" where
  "entry_index m k = (case findIndex (\<lambda>e. strict_eq (fst e) k) m of None \<Rightarrow> length m | Some i \<Rightarrow> i)"

section \<open>The sink\<close>

text \<open>
  What \<^verbatim>\<open>writer.write\<close> receives: a text delta, or a data part with its type, its
  data and whether it carries \<^verbatim>\<open>transient: true\<close>.  The data is recorded as it
  is when written.  A record built by \<^verbatim>\<open>Object.fromEntries\<close> is represented by the
  entries it is built from.
\<close>

datatype payload =
    P_research_state json string
  | P_analysts "Analyst list"
  | P_progress Progress json
  | P_interview json json json json json json
  | P_interviews "InterviewMessage list js_map"
  | P_sections "json js_map"
  | P_error "ErrorInfo option"
  | P_error_data json
  | P_raw json
  | P_complete json "Analyst list" "InterviewMessage list js_map" "json js_map" "SearchResult list"

datatype ui_chunk =
    Text_delta json json
  | Data_part string payload bool

text \<open>
  The route mutates the state in place, writes to the sink and reads the clock.  The
  model threads all three: \<open>clock n\<close> is the result of the \<open>n\<close>-th call of
  \<^verbatim>\<open>new Date().toISOString()\<close>, and \<open>caught\<close> holds the errors caught and logged by
  the read loop.
\<close>

record world =
  state :: ResearchState
  written :: "ui_chunk list"
  clock_reads :: nat
  caught :: "js_error list"

definition writer_write :: "ui_chunk \<Rightarrow> world \<Rightarrow> world" where
  "writer_write c w = w\<lparr>written := written w @ [c]\<rparr>"

definition now :: "(nat \<Rightarrow> string) \<Rightarrow> world \<Rightarrow> json" where
  "now clock w = JStr (clock (clock_reads w))"

definition tick :: "world \<Rightarrow> world" where
  "tick w = w\<lparr>clock_reads := Suc (clock_reads w)\<rparr>"

section \<open>Legacy batch elements: \<^verbatim>\<open>processResearchEvent\<close>\<close>

text \<open>
  \<^verbatim>\<open>processResearchEvent\<close> (route.ts, lines 491 to 652) is a switch on
  \<^verbatim>\<open>event.type\<close>; each case is a definition of its own below, in the source's order,
  and the switch is \<open>processResearchEvent\<close>.  A case that reads \<^verbatim>\<open>event.data.x\<close>, or
  destructures \<^verbatim>\<open>event.data\<close>, raises a TypeError when the data is undefined or null;
  in this function that happens before anything is changed or written.
\<close>

definition make_analyst :: "json \<Rightarrow> Analyst" where
  "make_analyst d =
     \<lparr>name = field d ''name'', role = field d ''role'', affiliation = field d ''affiliation'',
      esgFocus = field d ''esgFocus'', esgCategories = field d ''esgCategories''\<rparr>"

text \<open>The roster update shared by both paths: replace at the index found, else push.\<close>

definition upsert_analyst :: "Analyst \<Rightarrow> Analyst list \<Rightarrow> Analyst list" where
  "upsert_analyst a xs =
     (case findIndex (\<lambda>x. strict_eq (name x) (name a)) xs of
        Some i \<Rightarrow> xs[i := a]
      | None \<Rightarrow> xs @ [a])"

definition set_analysts :: "Analyst list \<Rightarrow> world \<Rightarrow> world" where
  "set_analysts xs w = w\<lparr>state := (state w)\<lparr>analysts := xs\<rparr>\<rparr>"

definition research_analyst :: "json \<Rightarrow> world \<Rightarrow> outcome \<times> world" where
  "research_analyst event w =
     (let d = field event ''data'' in
      if nullish d then (Threw TypeError, w)
      else
        let xs = upsert_analyst (make_analyst d) (analysts (state w)) in
        (Returned, writer_write (Data_part ''data-analysts'' (P_analysts xs) False) (set_analysts xs w)))"

text \<open>
  The progress update shared by both paths; \<open>src\<close> is the object the fields are read from
  (the event itself for a batch element, its \<open>data\<close> for a discrete event).
\<close>

definition update_progress :: "json \<Rightarrow> ResearchState \<Rightarrow> ResearchState" where
  "update_progress src st =
     (let st1 = st\<lparr>progress :=
                  \<lparr>current = or_else (field src ''current'') (current (progress st)),
                   total = or_else (field src ''total'') (total (progress st)),
                   message = field src ''message''\<rparr>\<rparr>
      in if truthy (field src ''phase'') then st1\<lparr>phase := field src ''phase''\<rparr> else st1)"

definition research_progress :: "json \<Rightarrow> world \<Rightarrow> outcome \<times> world" where
  "research_progress event w =
     (let st = update_progress event (state w) in
      (Returned,
       writer_write (Data_part ''data-progress'' (P_progress (progress st) (phase st)) True)
         (w\<lparr>state := st\<rparr>)))"

definition set_interviews :: "InterviewMessage list js_map \<Rightarrow> world \<Rightarrow> world" where
  "set_interviews m w = w\<lparr>state := (state w)\<lparr>interviews := m\<rparr>\<rparr>"

text \<open>
  The tail of the interview case, shared by both paths.  \<open>is_new_content\<close> is the test
  \<^verbatim>\<open>!lastMessage || lastMessage.content !== messagePreview\<close>; \<open>push_message\<close> pushes
  onto the transcript at position \<open>i\<close> of the map and writes the transcripts.
\<close>

definition is_new_content :: "InterviewMessage list \<Rightarrow> json \<Rightarrow> bool" where
  "is_new_content messages preview =
     (if messages = [] then True else \<not> strict_eq (content (last messages)) preview)"

definition push_message :: "nat \<Rightarrow> InterviewMessage \<Rightarrow> world \<Rightarrow> world" where
  "push_message i msg w =
     (let m = interviews (state w);
          m' = m[i := (fst (m ! i), snd (m ! i) @ [msg])]
      in writer_write (Data_part ''data-interviews'' (P_interviews m') False) (set_interviews m' w))"

definition research_interview :: "(nat \<Rightarrow> string) \<Rightarrow> json \<Rightarrow> world \<Rightarrow> outcome \<times> world" where
  "research_interview clock event w =
     (let d = field event ''data'' in
      if nullish d then (Threw TypeError, w)
      else
        let an = field d ''analystName'';
            status = field d ''status'';
            messagePreview = field d ''messagePreview'';
            turnNumber = field d ''turnNumber'';
            metadata = or_else (field event ''metadata'') (JObj []);
            w1 = tick (writer_write
                   (Data_part ''data-interview''
                      (P_interview an status turnNumber messagePreview (now clock w) metadata) True) w);
            i = entry_index (interviews (state w1)) an;
            w2 = set_interviews (ensure_entry (interviews (state w1)) an) w1
        in
        if truthy messagePreview \<and> truthy an
        then
          let r = or_else (field metadata ''role'')
                    (if status = JStr ''questioning'' then JStr ''user''
                     else if status = JStr ''answering'' then JStr ''assistant''
                     else JStr ''assistant'')
          in
          if is_new_content (snd (interviews (state w2) ! i)) messagePreview
          then (Returned,
                push_message i
                  \<lparr>analystName = an, msg_role = r, content = messagePreview,
                   timestamp = now clock w2\<rparr> (tick w2))
          else (Returned, w2)
        else (Returned, w2))"

definition research_search :: "json \<Rightarrow> world \<Rightarrow> outcome \<times> world" where
  "research_search event w =
     (let d = field event ''data'' in
      if nullish d then (Threw TypeError, w)
      else if field d ''status'' = JStr ''completed'' \<and> truthy (field d ''resultsCount'')
      then (Returned,
            w\<lparr>state := (state w)\<lparr>searches := searches (state w) @
                 [\<lparr>tool = field d ''tool'', query = field d ''query'',
                   resultsCount = field d ''resultsCount'', sources = []\<rparr>]\<rparr>\<rparr>)
      else (Returned, w))"

definition research_section :: "json \<Rightarrow> world \<Rightarrow> outcome \<times> world" where
  "research_section event w =
     (let d = field event ''data'' in
      if nullish d then (Threw TypeError, w)
      else
        let m = map_set (sections (state w)) (field d ''analystName'') (field d ''contentPreview'') in
        (Returned,
         writer_write (Data_part ''data-sections'' (P_sections m) False)
           (w\<lparr>state := (state w)\<lparr>sections := m\<rparr>\<rparr>)))"

definition research_error :: "json \<Rightarrow> world \<Rightarrow> outcome \<times> world" where
  "research_error event w =
     (let d = field event ''data'' in
      if nullish d then (Threw TypeError, w)
      else
        let e = Some \<lparr>err_message = field d ''error'', err_type = field d ''errorType''\<rparr> in
        (Returned,
         writer_write (Data_part ''data-error'' (P_error e) True)
           (w\<lparr>state := (state w)\<lparr>error := e\<rparr>\<rparr>)))"

definition processResearchEvent :: "(nat \<Rightarrow> string) \<Rightarrow> json \<Rightarrow> world \<Rightarrow> outcome \<times> world" where
  "processResearchEvent clock event w =
     (if nullish event then (Threw TypeError, w)
      else
        let t = field event ''type'' in
        if t = JStr ''analyst'' then research_analyst event w
        else if t = JStr ''progress'' then research_progress event w
        else if t = JStr ''interview'' then research_interview clock event w
        else if t = JStr ''search'' then research_search event w
        else if t = JStr ''section'' then research_section event w
        else if t = JStr ''error'' then research_error event w
        else (Returned, w))"

section \<open>Discrete typed events: \<^verbatim>\<open>processV5DataPart\<close>\<close>

text \<open>
  \<^verbatim>\<open>processV5DataPart\<close> (route.ts, lines 654 to 817): \<open>d\<close>, \<open>ident\<close> and \<open>transient\<close>
  are the event's \<^verbatim>\<open>data\<close>, \<^verbatim>\<open>id\<close> and \<^verbatim>\<open>transient\<close>.  The progress and error
  cases write before they read the data, so there a write can precede the TypeError.
\<close>

definition v5_analyst :: "json \<Rightarrow> json \<Rightarrow> world \<Rightarrow> outcome \<times> world" where
  "v5_analyst d transient w =
     (if nullish d then (Threw TypeError, w)
      else
        let xs = upsert_analyst (make_analyst d) (analysts (state w));
            w1 = set_analysts xs w
        in
        if \<not> truthy transient
        then (Returned, writer_write (Data_part ''data-analysts'' (P_analysts xs) False) w1)
        else (Returned, w1))"

definition v5_progress :: "json \<Rightarrow> json \<Rightarrow> world \<Rightarrow> outcome \<times> world" where
  "v5_progress d transient w =
     (let w1 = (if truthy transient
                then writer_write (Data_part ''data-progress'' (P_raw d) True) w else w)
      in
      if nullish d then (Threw TypeError, w1)
      else (Returned, w1\<lparr>state := update_progress d (state w1)\<rparr>))"

definition v5_interview :: "(nat \<Rightarrow> string) \<Rightarrow> json \<Rightarrow> world \<Rightarrow> outcome \<times> world" where
  "v5_interview clock d w =
     (if nullish d then (Threw TypeError, w)
      else
        let an = field d ''analystName'';
            status = field d ''status'';
            messagePreview = field d ''messagePreview'';
            i = entry_index (interviews (state w)) an;
            w1 = set_interviews (ensure_entry (interviews (state w)) an) w
        in
        if truthy messagePreview
        then
          let r = or_else (opt_field (field d ''metadata'') ''role'')
                    (if status = JStr ''questioning'' then JStr ''user'' else JStr ''assistant'')
          in
          if is_new_content (snd (interviews (state w1) ! i)) messagePreview
          then
            if truthy (field d ''timestamp'')
            then (Returned,
                  push_message i
                    \<lparr>analystName = an, msg_role = r, content = messagePreview,
                     timestamp = field d ''timestamp''\<rparr> w1)
            else (Returned,
                  push_message i
                    \<lparr>analystName = an, msg_role = r, content = messagePreview,
                     timestamp = now clock w1\<rparr> (tick w1))
          else (Returned, w1)
        else (Returned, w1))"

definition v5_search :: "json \<Rightarrow> json \<Rightarrow> world \<Rightarrow> outcome \<times> world" where
  "v5_search d transient w =
     (if truthy transient
      then (Returned, writer_write (Data_part ''data-search'' (P_raw d) True) w)
      else (Returned, w))"

definition v5_section :: "json \<Rightarrow> json \<Rightarrow> json \<Rightarrow> world \<Rightarrow> outcome \<times> world" where
  "v5_section d ident transient w =
     (if nullish d then (Threw TypeError, w)
      else
        let w1 = (if truthy ident
                  then w\<lparr>state := (state w)\<lparr>sections :=
                         map_set (sections (state w)) (field d ''analystName'')
                           (field d ''contentPreview'')\<rparr>\<rparr>
                  else w)
        in
        if \<not> truthy transient
        then (Returned,
              writer_write (Data_part ''data-sections'' (P_sections (sections (state w1))) False) w1)
        else (Returned, w1))"

definition v5_error :: "json \<Rightarrow> json \<Rightarrow> world \<Rightarrow> outcome \<times> world" where
  "v5_error d transient w =
     (let w1 = (if truthy transient
                then writer_write (Data_part ''data-error'' (P_raw d) True) w else w)
      in
      if nullish d then (Threw TypeError, w1)
      else (Returned,
            w1\<lparr>state := (state w1)\<lparr>error :=
                  Some \<lparr>err_message = field d ''error'', err_type = field d ''errorType''\<rparr>\<rparr>\<rparr>))"

definition v5_metadata :: "json \<Rightarrow> json \<Rightarrow> world \<Rightarrow> outcome \<times> world" where
  "v5_metadata d transient w =
     (if truthy transient
      then (Returned, writer_write (Data_part ''data-metadata'' (P_raw d) True) w)
      else (Returned, w))"

text \<open>
  \<^verbatim>\<open>type.replace('data-', '')\<close> raises a TypeError unless \<open>type\<close> is a string.
\<close>

definition processV5DataPart :: "(nat \<Rightarrow> string) \<Rightarrow> json \<Rightarrow> world \<Rightarrow> outcome \<times> world" where
  "processV5DataPart clock event w =
     (if nullish event then (Threw TypeError, w)
      else
        case field event ''type'' of
          JStr t \<Rightarrow>
            (let d = field event ''data'';
                 ident = field event ''id'';
                 transient = field event ''transient'';
                 eventType = replace_first ''data-'' t
             in
             if eventType = ''analyst'' then v5_analyst d transient w
             else if eventType = ''progress'' then v5_progress d transient w
             else if eventType = ''interview'' then v5_interview clock d w
             else if eventType = ''search'' then v5_search d transient w
             else if eventType = ''section'' then v5_section d ident transient w
             else if eventType = ''error'' then v5_error d transient w
             else if eventType = ''metadata'' then v5_metadata d transient w
             else (Returned, w))
        | _ \<Rightarrow> (Threw TypeError, w))"

section \<open>Format detection: \<^verbatim>\<open>processLangGraphEvent\<close>\<close>

text \<open>
  \<^verbatim>\<open>processLangGraphEvent\<close> (route.ts, lines 331 to 489).
\<close>

text \<open>
  The loop over the elements of a batch.  \<open>names\<close> is \<^verbatim>\<open>processedAnalystNames\<close>, the
  names of the roster when the line's processing began.  An exception raised by an
  element leaves the loop; what was done before stays done.
\<close>

definition skip_analyst :: "json list \<Rightarrow> json \<Rightarrow> bool" where
  "skip_analyst names item =
     (field item ''type'' = JStr ''analyst'' \<and>
      list_ex (\<lambda>n. strict_eq n (opt_field (field item ''data'') ''name'')) names)"

fun process_items :: "(nat \<Rightarrow> string) \<Rightarrow> json list \<Rightarrow> json list \<Rightarrow> world \<Rightarrow> outcome \<times> world" where
  "process_items clock names [] w = (Returned, w)"
| "process_items clock names (item # items) w =
     (if nullish item then (Threw TypeError, w)
      else if skip_analyst names item then process_items clock names items w
      else
        case processResearchEvent clock item w of
          (Returned, w') \<Rightarrow> process_items clock names items w'
        | (Threw e, w') \<Rightarrow> (Threw e, w'))"

text \<open>Whitespace of \<^verbatim>\<open>String.prototype.trim\<close> among the code points modelled.\<close>

definition is_space :: "char \<Rightarrow> bool" where
  "is_space c =
     (c = CHR 0x09 \<or> c = CHR 0x0A \<or> c = CHR 0x0B \<or> c = CHR 0x0C \<or> c = CHR 0x0D \<or>
      c = CHR 0x20 \<or> c = CHR 0xA0)"

definition trim :: "string \<Rightarrow> string" where
  "trim s = rev (dropWhile is_space (rev (dropWhile is_space s)))"

text \<open>
  \<^verbatim>\<open>trimmed.match(/^2:([^[]+)\[(.+)\]$/)\<close>: the name runs to the first bracket and is
  not empty; the rest of the string, less the closing bracket it must end with, is the
  payload, which is not empty and holds no line terminator.
\<close>

definition match_data_part :: "string \<Rightarrow> (string \<times> string) option" where
  "match_data_part s =
     (let rest = drop 2 s;
          partName = takeWhile (\<lambda>c. c \<noteq> CHR ''['') rest;
          bracketed = dropWhile (\<lambda>c. c \<noteq> CHR ''['') rest;
          jsonData = butlast (tl bracketed)
      in
      if startsWith s ''2:'' \<and> partName \<noteq> [] \<and> 3 \<le> length bracketed \<and>
         last bracketed = CHR '']'' \<and>
         list_all (\<lambda>c. c \<noteq> CHR 0x0A \<and> c \<noteq> CHR 0x0D) jsonData
      then Some (partName, jsonData)
      else None)"

text \<open>
  The raw token protocol.  \<open>parse\<close> is \<^verbatim>\<open>JSON.parse\<close>, with \<open>None\<close> for a
  SyntaxError.  Whatever the data part's processing raises is caught and logged here.
\<close>

definition process_raw_token ::
  "(string \<Rightarrow> json option) \<Rightarrow> (nat \<Rightarrow> string) \<Rightarrow> string \<Rightarrow> world \<Rightarrow> outcome \<times> world" where
  "process_raw_token parse clock s w =
     (let trimmed = trim s in
      if startsWith trimmed ''0:''
      then (Returned, writer_write (Text_delta (JStr (drop 2 trimmed)) (JStr ''research-text'')) w)
      else if startsWith trimmed ''2:''
      then
        (case match_data_part trimmed of
           None \<Rightarrow> (Returned, w)
         | Some (partName, jsonData) \<Rightarrow>
             (case parse jsonData of
                None \<Rightarrow> (Returned, w)
              | Some d \<Rightarrow>
                  (Returned,
                   snd (processV5DataPart clock
                          (JObj [(''type'', JStr (''data-'' @ partName)), (''data'', d)]) w))))
      else if startsWith trimmed ''3:''
      then
        (case parse (drop 2 trimmed) of
           None \<Rightarrow> (Returned, w)
         | Some errorData \<Rightarrow>
             (Returned, writer_write (Data_part ''data-error'' (P_error_data errorData) True) w))
      else (Returned, w))"

definition skip_v5_analyst :: "json list \<Rightarrow> json \<Rightarrow> bool" where
  "skip_v5_analyst names event =
     (field event ''type'' = JStr ''data-analyst'' \<and>
      truthy (opt_field (field event ''data'') ''name'') \<and>
      list_ex (\<lambda>n. strict_eq n (field (field event ''data'') ''name'')) names)"

text \<open>The branches for an object that is no discrete typed event, in the source's order.\<close>

definition process_other_object ::
  "(nat \<Rightarrow> string) \<Rightarrow> json list \<Rightarrow> json \<Rightarrow> world \<Rightarrow> outcome \<times> world" where
  "process_other_object clock names event w =
     (let t = field event ''type'' in
      if t = JStr ''updates'' then (Returned, w)
      else if t = JStr ''messages'' \<or> t = JStr ''messages/partial'' then (Returned, w)
      else if t = JStr ''custom'' \<and> truthy (field event ''data'')
      then (case field event ''data'' of
              JArr items \<Rightarrow> process_items clock names items w
            | _ \<Rightarrow> (Returned, w))
      else if t = JStr ''text-delta''
      then
        if truthy (field event ''delta'')
        then (Returned,
              writer_write (Text_delta (field event ''delta'')
                (or_else (field event ''id'') (JStr ''research-text''))) w)
        else (Returned, w)
      else (Returned, w))"

text \<open>
  An object: \<^verbatim>\<open>event.type?.startsWith('data-')\<close> is \<^verbatim>\<open>undefined\<close> for an absent
  or null type, and raises a TypeError for a type that is neither that nor a string.
\<close>

definition process_object ::
  "(nat \<Rightarrow> string) \<Rightarrow> json list \<Rightarrow> json \<Rightarrow> world \<Rightarrow> outcome \<times> world" where
  "process_object clock names event w =
     (case field event ''type'' of
        JStr t \<Rightarrow>
          if startsWith t ''data-''
          then
            if skip_v5_analyst names event then (Returned, w)
            else if t = ''data-heartbeat'' then (Returned, w)
            else processV5DataPart clock event w
          else process_other_object clock names event w
      | JUndef \<Rightarrow> process_other_object clock names event w
      | JNull \<Rightarrow> process_other_object clock names event w
      | _ \<Rightarrow> (Threw TypeError, w))"

text \<open>
  The dispatch.  The logging at the entry reads \<^verbatim>\<open>event.type\<close>, which raises on
  \<^verbatim>\<open>null\<close>.  An array is a batch; an object goes through the typed branches; a
  string, whose \<^verbatim>\<open>type\<close> is undefined, reaches the raw token branch; any other value
  matches no branch.
\<close>

definition processLangGraphEvent ::
  "(string \<Rightarrow> json option) \<Rightarrow> (nat \<Rightarrow> string) \<Rightarrow> json \<Rightarrow> world \<Rightarrow> outcome \<times> world" where
  "processLangGraphEvent parse clock event w =
     (if nullish event then (Threw TypeError, w)
      else
        let names = map name (analysts (state w)) in
        case event of
          JArr items \<Rightarrow> process_items clock names items w
        | JObj kvs \<Rightarrow> process_object clock names event w
        | JStr s \<Rightarrow> process_raw_token parse clock s w
        | _ \<Rightarrow> (Returned, w))"

section \<open>The read loop of \<^verbatim>\<open>streamFromLangGraph\<close>\<close>

text \<open>\<^verbatim>\<open>buffer.split('\n')\<close>: never empty; the last element is the unterminated rest.\<close>

fun split_nl :: "string \<Rightarrow> string list" where
  "split_nl [] = [] # []"
| "split_nl (c # cs) =
     (if c = CHR 0x0A then [] # split_nl cs
      else (c # hd (split_nl cs)) # tl (split_nl cs))"

text \<open>
  One line: blank lines and lines without the \<^verbatim>\<open>data: \<close> prefix are passed over;
  a parse failure and whatever the event's processing raises are caught and logged, and
  the loop goes on with the next line.
\<close>

definition process_line ::
  "(string \<Rightarrow> json option) \<Rightarrow> (nat \<Rightarrow> string) \<Rightarrow> string \<Rightarrow> world \<Rightarrow> world" where
  "process_line parse clock line w =
     (if trim line = [] then w
      else if startsWith line ''data: ''
      then
        (case parse (drop 6 line) of
           None \<Rightarrow> w\<lparr>caught := caught w @ [SyntaxError]\<rparr>
         | Some d \<Rightarrow>
             (case processLangGraphEvent parse clock d w of
                (Returned, w') \<Rightarrow> w'
              | (Threw e, w') \<Rightarrow> w'\<lparr>caught := caught w' @ [e]\<rparr>))
      else w)"

fun process_lines ::
  "(string \<Rightarrow> json option) \<Rightarrow> (nat \<Rightarrow> string) \<Rightarrow> string list \<Rightarrow> world \<Rightarrow> world" where
  "process_lines parse clock [] w = w"
| "process_lines parse clock (line # lines) w =
     process_lines parse clock lines (process_line parse clock line w)"

text \<open>
  One read (route.ts, lines 275 to 294): the chunk is appended to the buffer, the buffer
  is split, the last piece becomes the new buffer and the others are the lines to
  process.  A chunk is the text the decoder yields for a read; decoding with
  \<^verbatim>\<open>stream: true\<close> holds back an incomplete trailing sequence, so the texts of the
  reads concatenate to the text of the whole stream.
\<close>

definition frame :: "string \<Rightarrow> string \<Rightarrow> string list \<times> string" where
  "frame buffer chunk =
     (let lines = split_nl (buffer @ chunk) in (butlast lines, last lines))"

fun read_loop ::
  "(string \<Rightarrow> json option) \<Rightarrow> (nat \<Rightarrow> string) \<Rightarrow> string list \<Rightarrow> string \<Rightarrow> world \<Rightarrow> string \<times> world" where
  "read_loop parse clock [] buffer w = (buffer, w)"
| "read_loop parse clock (chunk # chunks) buffer w =
     (case frame buffer chunk of
        (lines, buffer') \<Rightarrow> read_loop parse clock chunks buffer' (process_lines parse clock lines w))"

text \<open>
  The stream from the first read to the end (route.ts, lines 269 to 328): \<open>chunks\<close> are
  the reads before \<^verbatim>\<open>done\<close>.  The stall check between reads only logs.  After the
  loop the final state is written once; what is left in the buffer is not processed.
\<close>

definition research_complete :: "ResearchState \<Rightarrow> ui_chunk" where
  "research_complete st =
     Data_part ''data-research-complete''
       (P_complete (JStr ''completed'') (analysts st) (interviews st) (sections st) (searches st))
       False"

definition streamFromLangGraph ::
  "(string \<Rightarrow> json option) \<Rightarrow> (nat \<Rightarrow> string) \<Rightarrow> string list \<Rightarrow> world \<Rightarrow> world" where
  "streamFromLangGraph parse clock chunks w =
     (let w' = snd (read_loop parse clock chunks [] w)
      in writer_write (research_complete (state w')) w')"

text \<open>
  The lines the read loop hands to processing over a whole stream, and the buffer left
  at the end.
\<close>

fun frame_all :: "string list \<Rightarrow> string \<Rightarrow> string list \<times> string" where
  "frame_all [] buffer = ([], buffer)"
| "frame_all (chunk # chunks) buffer =
     (case frame buffer chunk of
        (lines, buffer') \<Rightarrow>
          (case frame_all chunks buffer' of (ls, b) \<Rightarrow> (lines @ ls, b)))"

section \<open>The request handler's initial state\<close>

text \<open>
  \<^verbatim>\<open>POST\<close> creates the state for the query and writes it to the sink before it
  starts the stream.
\<close>

definition initial_state :: "string \<Rightarrow> ResearchState" where
  "initial_state q =
     \<lparr>topic = q, phase = JStr ''initialization'', analysts = [], interviews = [],
      sections = [], searches = [],
      progress = \<lparr>current = JNum 0, total = JNum 0, message = JStr ''Starting research...''\<rparr>,
      error = None\<rparr>"

definition initial_world :: "string \<Rightarrow> world" where
  "initial_world q =
     \<lparr>state = initial_state q,
      written = [Data_part ''data-research-state''
                   (P_research_state (JStr ''initialization'') q) False],
      clock_reads = 0, caught = []\<rparr>"

text \<open>A clock, sample inputs and a parser that knows them, for the concrete runs below.\<close>

definition sample_clock :: "nat \<Rightarrow> string" where
  "sample_clock n = ''2025-01-01T00:00:00.000Z''"

definition section_data :: json where
  "section_data = JObj [(''analystName'', JStr ''A''), (''contentPreview'', JStr ''Draft'')]"

definition analyst_item :: "string \<Rightarrow> string \<Rightarrow> json" where
  "analyst_item n r =
     JObj [(''type'', JStr ''analyst''),
           (''data'', JObj [(''name'', JStr n), (''role'', JStr r)])]"

definition broken_batch_text :: string where
  "broken_batch_text =
     ''[{\"type\":\"analyst\",\"data\":{\"name\":\"A\",\"role\":\"R1\"}},'' @
     ''{\"type\":\"analyst\"},'' @
     ''{\"type\":\"section\",\"data\":{\"analystName\":\"A\",\"contentPreview\":\"Draft\"}}]''"

definition section_item :: json where
  "section_item = JObj [(''type'', JStr ''section''), (''data'', section_data)]"

definition discrete_analyst_text :: string where
  "discrete_analyst_text = ''{\"type\":\"data-analyst\",\"data\":{\"name\":\"B\"}}''"

definition discrete_analyst :: json where
  "discrete_analyst =
     JObj [(''type'', JStr ''data-analyst''), (''data'', JObj [(''name'', JStr ''B'')])]"

definition two_analysts_text :: string where
  "two_analysts_text =
     ''[{\"type\":\"analyst\",\"data\":{\"name\":\"A\",\"role\":\"R1\"}},'' @
     ''{\"type\":\"analyst\",\"data\":{\"name\":\"A\",\"role\":\"R2\"}}]''"

definition lost_analyst_text :: string where
  "lost_analyst_text =
     ''[{\"type\":\"interview\"},{\"type\":\"analyst\",\"data\":{\"name\":\"B\",\"role\":\"R\"}}]''"

definition sample_parse :: "string \<Rightarrow> json option" where
  "sample_parse s =
     (if s = ''{\"name\":\"Dr. Chen\"}'' then Some (JObj [(''name'', JStr ''Dr. Chen'')])
      else if s = broken_batch_text
      then Some (JArr [analyst_item ''A'' ''R1'', JObj [(''type'', JStr ''analyst'')], section_item])
      else if s = discrete_analyst_text then Some discrete_analyst
      else if s = two_analysts_text
      then Some (JArr [analyst_item ''A'' ''R1'', analyst_item ''A'' ''R2''])
      else if s = lost_analyst_text
      then Some (JArr [JObj [(''type'', JStr ''interview'')], analyst_item ''B'' ''R''])
      else None)"

section \<open>Sample events\<close>

text \<open>\<open>trim_end\<close> removes trailing whitespace: what \<^verbatim>\<open>trim\<close> does to the tail of a
  token line that begins with its digit.\<close>

definition trim_end :: "string \<Rightarrow> string" where
  "trim_end t = rev (dropWhile is_space (rev t))"

definition chen_event :: "json \<Rightarrow> json" where
  "chen_event transient =
     JObj [(''type'', JStr ''data-analyst''),
           (''data'', JObj [(''name'', JStr ''Dr. Chen''), (''role'', JStr ''ESG Lead'')]),
           (''transient'', transient)]"

definition progress_without_message :: json where
  "progress_without_message =
     JObj [(''type'', JStr ''data-progress''), (''data'', JObj [(''current'', JNum 3)])]"

definition progress_update :: json where
  "progress_update =
     JObj [(''type'', JStr ''progress''), (''message'', JStr ''Interviewing''),
           (''current'', JNum 2), (''phase'', JStr ''interviews'')]"

definition completed_search :: json where
  "completed_search =
     JObj [(''tool'', JStr ''web''), (''query'', JStr ''esg''), (''status'', JStr ''completed''),
           (''resultsCount'', JNum 5)]"

section \<open>Derived notions used in the statements\<close>






definition discrete_analyst_update :: json where
  "discrete_analyst_update =
     JObj [(''type'', JStr ''data-analyst''),
           (''data'', JObj [(''name'', JStr ''A''), (''role'', JStr ''R2'')])]"

text \<open>The terminal part, recognised by its type.\<close>

definition is_complete :: "ui_chunk \<Rightarrow> bool" where
  "is_complete c = (case c of Data_part t p tr \<Rightarrow> t = ''data-research-complete'' | _ \<Rightarrow> False)"

text \<open>
  \<open>keeps w w'\<close>: from \<open>w\<close> to \<open>w'\<close> nothing was logged, no terminal part was written
  and the roster is the same.
\<close>

definition keeps :: "world \<Rightarrow> world \<Rightarrow> bool" where
  "keeps w w' =
     (caught w' = caught w \<and>
      filter is_complete (written w') = filter is_complete (written w) \<and>
      analysts (state w') = analysts (state w))"

text \<open>The events that reach the analyst case of \<^verbatim>\<open>processV5DataPart\<close>.\<close>

definition is_v5_analyst :: "json \<Rightarrow> bool" where
  "is_v5_analyst e =
     (case field e ''type'' of JStr t \<Rightarrow> replace_first ''data-'' t = ''analyst'' | _ \<Rightarrow> False)"

text \<open>No two entries of the roster have names that are \<^verbatim>\<open>===\<close>.\<close>

fun no_shared_name :: "Analyst list \<Rightarrow> bool" where
  "no_shared_name [] = True"
| "no_shared_name (a # xs) =
     (\<not> list_ex (\<lambda>b. strict_eq (name b) (name a)) xs \<and> no_shared_name xs)"

definition after_first_analyst :: world where
  "after_first_analyst =
     snd (processLangGraphEvent sample_parse sample_clock (JArr [analyst_item ''A'' ''R1''])
            (initial_world ''q''))"

text \<open>
  The names carried by the Analyst events of a stream, read off the input: the Analyst
  elements of a batch (or of a custom event's array), a discrete Analyst event, a raw
  \<open>2:analyst[json]\<close> token with a payload.
\<close>

definition batch_names :: "json list \<Rightarrow> json list" where
  "batch_names items =
     map (\<lambda>item. opt_field (field item ''data'') ''name'')
       (filter (\<lambda>item. field item ''type'' = JStr ''analyst'') items)"

definition analyst_names :: "(string \<Rightarrow> json option) \<Rightarrow> json \<Rightarrow> json list" where
  "analyst_names parse ev =
     (case ev of
        JArr items \<Rightarrow> batch_names items
      | JObj kvs \<Rightarrow>
          (case field ev ''type'' of
             JStr t \<Rightarrow>
               if t = ''data-analyst'' then [opt_field (field ev ''data'') ''name'']
               else if t = ''custom''
               then (case field ev ''data'' of JArr items \<Rightarrow> batch_names items | _ \<Rightarrow> [])
               else []
           | _ \<Rightarrow> [])
      | JStr s \<Rightarrow>
          (case match_data_part (trim s) of
             Some (partName, jsonData) \<Rightarrow>
               if partName = ''analyst''
               then (case parse jsonData of
                       Some d \<Rightarrow> if nullish d then [] else [field d ''name'']
                     | None \<Rightarrow> [])
               else []
           | None \<Rightarrow> [])
      | _ \<Rightarrow> [])"

definition line_names :: "(string \<Rightarrow> json option) \<Rightarrow> string \<Rightarrow> json list" where
  "line_names parse line =
     (if trim line = [] then []
      else if startsWith line ''data: ''
      then (case parse (drop 6 line) of None \<Rightarrow> [] | Some d \<Rightarrow> analyst_names parse d)
      else [])"

definition stream_names :: "(string \<Rightarrow> json option) \<Rightarrow> string list \<Rightarrow> json list" where
  "stream_names parse chunks = concat (map (line_names parse) (fst (frame_all chunks [])))"

text \<open>The names in the roster.\<close>

definition roster_names :: "world \<Rightarrow> json set" where
  "roster_names w = name ` set (analysts (state w))"

text \<open>A sample stream of two lines, cut inside the second line's prefix.\<close>

definition sample_line1 :: string where
  "sample_line1 = ''data: '' @ two_analysts_text"

definition sample_line2 :: string where
  "sample_line2 = ''data: '' @ discrete_analyst_text"

definition sample_chunks :: "string list" where
  "sample_chunks =
     [sample_line1 @ [CHR 0x0A] @ ''da'', ''ta: '' @ discrete_analyst_text @ [CHR 0x0A]]"

text \<open>The world after the first sample line.\<close>

definition after_batch :: world where
  "after_batch =
     (initial_world ''q'')\<lparr>
        state := (initial_state ''q'')\<lparr>analysts :=
          [\<lparr>name = JStr ''A'', role = JStr ''R2'', affiliation = JUndef, esgFocus = JUndef,
            esgCategories = JUndef\<rparr>]\<rparr>,
        written := written (initial_world ''q'') @
          [Data_part ''data-analysts''
             (P_analysts [\<lparr>name = JStr ''A'', role = JStr ''R1'', affiliation = JUndef,
                esgFocus = JUndef, esgCategories = JUndef\<rparr>]) False,
           Data_part ''data-analysts''
             (P_analysts [\<lparr>name = JStr ''A'', role = JStr ''R2'', affiliation = JUndef,
                esgFocus = JUndef, esgCategories = JUndef\<rparr>]) False]\<rparr>"

text \<open>
  The Analyst events a stream's processing reaches.  \<open>element_raises\<close> tells of a batch
  element whether \<^verbatim>\<open>processResearchEvent\<close> raises on it; in a batch, the elements from
  the first raising one on are not reached.  \<open>names\<close> is the roster's names when the
  line's processing begins, which decide the duplicate test; over a stream the world is
  the one the earlier lines left.  A discrete Analyst event or raw analyst token is
  reached when it has a payload; a line that does not parse reaches nothing.
\<close>

definition element_raises :: "json \<Rightarrow> bool" where
  "element_raises item =
     (nullish item \<or>
      ((field item ''type'' = JStr ''analyst'' \<or> field item ''type'' = JStr ''interview'' \<or>
        field item ''type'' = JStr ''search'' \<or> field item ''type'' = JStr ''section'' \<or>
        field item ''type'' = JStr ''error'') \<and>
       nullish (field item ''data'')))"

fun reached_batch_names :: "json list \<Rightarrow> json list \<Rightarrow> json list" where
  "reached_batch_names names [] = []"
| "reached_batch_names names (item # items) =
     (if nullish item then []
      else if skip_analyst names item
      then opt_field (field item ''data'') ''name'' # reached_batch_names names items
      else if element_raises item then []
      else (if field item ''type'' = JStr ''analyst'' then [field (field item ''data'') ''name'']
            else []) @ reached_batch_names names items)"

definition reached_event_names ::
  "(string \<Rightarrow> json option) \<Rightarrow> json list \<Rightarrow> json \<Rightarrow> json list" where
  "reached_event_names parse names ev =
     (case ev of
        JArr items \<Rightarrow> reached_batch_names names items
      | JObj kvs \<Rightarrow>
          (case field ev ''type'' of
             JStr t \<Rightarrow>
               if t = ''data-analyst''
               then (if nullish (field ev ''data'') then [] else [field (field ev ''data'') ''name''])
               else if t = ''custom''
               then (case field ev ''data'' of
                       JArr items \<Rightarrow> reached_batch_names names items
                     | _ \<Rightarrow> [])
               else []
           | _ \<Rightarrow> [])
      | JStr s \<Rightarrow> analyst_names parse (JStr s)
      | _ \<Rightarrow> [])"

definition reached_line_names ::
  "(string \<Rightarrow> json option) \<Rightarrow> json list \<Rightarrow> string \<Rightarrow> json list" where
  "reached_line_names parse names line =
     (if trim line = [] then []
      else if startsWith line ''data: ''
      then (case parse (drop 6 line) of
              None \<Rightarrow> []
            | Some d \<Rightarrow> reached_event_names parse names d)
      else [])"

fun reached_lines_names ::
  "(string \<Rightarrow> json option) \<Rightarrow> (nat \<Rightarrow> string) \<Rightarrow> string list \<Rightarrow> world \<Rightarrow> json list" where
  "reached_lines_names parse clock [] w = []"
| "reached_lines_names parse clock (line # lines) w =
     reached_line_names parse (map name (analysts (state w))) line @
     reached_lines_names parse clock lines (process_line parse clock line w)"

definition reached_names ::
  "(string \<Rightarrow> json option) \<Rightarrow> (nat \<Rightarrow> string) \<Rightarrow> string list \<Rightarrow> world \<Rightarrow> json list" where
  "reached_names parse clock chunks w =
     reached_lines_names parse clock (fst (frame_all chunks [])) w"

text \<open>
  Two more sample streams: one whose only batch raises before its Analyst element, one
  whose first batch raises after its first Analyst element.
\<close>

definition lost_line :: string where
  "lost_line = ''data: '' @ lost_analyst_text"

definition lost_chunks :: "string list" where
  "lost_chunks = [lost_line @ [CHR 0x0A]]"

definition broken_line :: string where
  "broken_line = ''data: '' @ broken_batch_text"

definition mixed_chunks :: "string list" where
  "mixed_chunks = [broken_line @ [CHR 0x0A], sample_line2 @ [CHR 0x0A]]"

section \<open>The line framer\<close>

lemma split_nl_ne [simp]: "split_nl s \<noteq> []"
  by (induction s) auto

lemma split_nl_no_nl: "CHR 0x0A \<notin> set s \<Longrightarrow> split_nl s = [s]"
  by (induction s) auto

lemma split_nl_append:
  "split_nl (a @ b) =
     butlast (split_nl a) @ (last (split_nl a) @ hd (split_nl b)) # tl (split_nl b)"
proof (induction a)
  case Nil
  then show ?case by simp
next
  case (Cons c a)
  obtain l ls where s: "split_nl a = l # ls" by (cases "split_nl a") auto
  show ?case using Cons s by (cases ls) auto
qed

lemma last_split_no_nl: "CHR 0x0A \<notin> set (last (split_nl s))"
proof (induction s)
  case Nil
  then show ?case by simp
next
  case (Cons c s)
  obtain l ls where s: "split_nl s = l # ls" by (cases "split_nl s") auto
  show ?case using Cons s by (cases ls) auto
qed

lemma split_nl_join:
  "concat (map (\<lambda>l. l @ [CHR 0x0A]) (butlast (split_nl s))) @ last (split_nl s) = s"
proof (induction s)
  case Nil
  then show ?case by simp
next
  case (Cons c s)
  obtain l ls where s: "split_nl s = l # ls" by (cases "split_nl s") auto
  show ?case using Cons s by (cases ls) auto
qed

lemma frame_all_eq:
  "CHR 0x0A \<notin> set buffer \<Longrightarrow>
   frame_all chunks buffer =
     (butlast (split_nl (buffer @ concat chunks)), last (split_nl (buffer @ concat chunks)))"
proof (induction chunks arbitrary: buffer)
  case Nil
  then show ?case by (simp add: split_nl_no_nl)
next
  case (Cons c cs)
  let ?s = "split_nl (buffer @ c)"
  let ?r = "split_nl (concat cs)"
  have nl: "CHR 0x0A \<notin> set (last ?s)" by (rule last_split_no_nl)
  have "split_nl (buffer @ concat (c # cs)) = split_nl ((buffer @ c) @ concat cs)" by simp
  also have "\<dots> = butlast ?s @ (last ?s @ hd ?r) # tl ?r"
    by (rule split_nl_append)
  finally have whole: "split_nl (buffer @ concat (c # cs)) = butlast ?s @ (last ?s @ hd ?r) # tl ?r" .
  have rest: "split_nl (last ?s @ concat cs) = (last ?s @ hd ?r) # tl ?r"
    using split_nl_append[of "last ?s" "concat cs"] nl by (simp add: split_nl_no_nl)
  show ?case
    using Cons.IH[OF nl] whole rest
    by (simp add: frame_def Let_def butlast_append)
qed

lemma process_lines_append:
  "process_lines parse clock (xs @ ys) w =
     process_lines parse clock ys (process_lines parse clock xs w)"
  by (induction xs arbitrary: w) auto

lemma read_loop_frame_all:
  "read_loop parse clock chunks buffer w =
     (snd (frame_all chunks buffer),
      process_lines parse clock (fst (frame_all chunks buffer)) w)"
  by (induction chunks arbitrary: buffer w) (auto simp: process_lines_append split: prod.splits)

text \<open>
  C7.  However a stream is cut into chunks, the read loop hands the same lines to
  processing, in the same order, and ends in the same world: the lines are the
  newline-terminated lines of the whole stream, each once, and with the buffer left at
  the end they reassemble the stream.
\<close>

theorem line_framer_chunking:
  assumes "concat chunks = concat chunks'"
  shows "frame_all chunks [] = frame_all chunks' [] \<and>
         read_loop parse clock chunks [] w = read_loop parse clock chunks' [] w \<and>
         read_loop parse clock chunks [] w =
           (snd (frame_all chunks []), process_lines parse clock (fst (frame_all chunks [])) w) \<and>
         fst (frame_all chunks []) = butlast (split_nl (concat chunks)) \<and>
         concat (map (\<lambda>l. l @ [CHR 0x0A]) (fst (frame_all chunks []))) @ snd (frame_all chunks [])
           = concat chunks"
proof -
  have a: "frame_all chunks [] = frame_all chunks' []"
    using assms by (simp add: frame_all_eq)
  have b: "read_loop parse clock chunks [] w = read_loop parse clock chunks' [] w"
    using a by (simp add: read_loop_frame_all)
  have c: "concat (map (\<lambda>l. l @ [CHR 0x0A]) (fst (frame_all chunks []))) @ snd (frame_all chunks [])
           = concat chunks"
    by (simp add: frame_all_eq split_nl_join)
  show ?thesis using a b c by (simp add: read_loop_frame_all frame_all_eq)
qed

theorem line_framer_chunking_witness:
  "concat [''data: 5'', [CHR 0x0A], ''da'', ''ta: [] '' @ [CHR 0x0A] @ ''x''] =
     concat [''data: 5'' @ [CHR 0x0A] @ ''data: [] '' @ [CHR 0x0A] @ ''x''] \<and>
   frame_all [''data: 5'', [CHR 0x0A], ''da'', ''ta: [] '' @ [CHR 0x0A] @ ''x''] [] =
     ([''data: 5'', ''data: [] ''], ''x'') \<and>
   frame_all [''data: 5'' @ [CHR 0x0A] @ ''data: [] '' @ [CHR 0x0A] @ ''x''] [] =
     ([''data: 5'', ''data: [] ''], ''x'')"
proof -
  have h: "concat [''data: 5'', [CHR 0x0A], ''da'', ''ta: [] '' @ [CHR 0x0A] @ ''x''] =
     concat [''data: 5'' @ [CHR 0x0A] @ ''data: [] '' @ [CHR 0x0A] @ ''x'']" by simp
  have e: "frame_all [''data: 5'', [CHR 0x0A], ''da'', ''ta: [] '' @ [CHR 0x0A] @ ''x''] [] =
      frame_all [''data: 5'' @ [CHR 0x0A] @ ''data: [] '' @ [CHR 0x0A] @ ''x''] []"
    using line_framer_chunking[OF h, of sample_parse sample_clock "initial_world ''q''"] by blast
  have v: "frame_all [''data: 5'', [CHR 0x0A], ''da'', ''ta: [] '' @ [CHR 0x0A] @ ''x''] [] =
     ([''data: 5'', ''data: [] ''], ''x'')"
    by (simp add: frame_def)
  show ?thesis using h e v by simp
qed

section \<open>Basic facts\<close>

lemma replace_first_prefix: "p \<noteq> [] \<Longrightarrow> replace_first p (p @ s) = s"
  by (cases p) (auto simp: startsWith_def)

lemma field_JStr_not_nullish: "field e k = JStr s \<Longrightarrow> \<not> nullish e"
  by (cases e) auto

section \<open>Transient analysts\<close>

text \<open>
  C9.  A discrete typed Analyst event updates the roster in the same way whatever its
  \<open>transient\<close> flag; the \<open>data-analysts\<close> part is written only when the flag is absent
  or falsy, and nothing is written when it is true.
\<close>

theorem transient_analyst_not_forwarded:
  assumes "field event ''type'' = JStr ''data-analyst''"
      and "\<not> nullish (field event ''data'')"
  shows "fst (processV5DataPart clock event w) = Returned \<and>
         state (snd (processV5DataPart clock event w)) =
           (state w)\<lparr>analysts :=
              upsert_analyst (make_analyst (field event ''data'')) (analysts (state w))\<rparr> \<and>
         written (snd (processV5DataPart clock event w)) =
           (if truthy (field event ''transient'') then written w
            else written w @
              [Data_part ''data-analysts''
                 (P_analysts (upsert_analyst (make_analyst (field event ''data''))
                    (analysts (state w)))) False])"
proof -
  have ne: "\<not> nullish event" using assms(1) by (rule field_JStr_not_nullish)
  have rf: "replace_first ''data-'' ''data-analyst'' = ''analyst''"
    using replace_first_prefix[of "''data-''" "''analyst''"] by simp
  show ?thesis
    using assms ne
    by (simp add: processV5DataPart_def rf v5_analyst_def Let_def set_analysts_def writer_write_def del: replace_first.simps)
qed

theorem transient_analyst_not_forwarded_witness:
  "field (chen_event (JBool True)) ''type'' = JStr ''data-analyst'' \<and>
   \<not> nullish (field (chen_event (JBool True)) ''data'') \<and>
   analysts (state (snd (processV5DataPart sample_clock (chen_event (JBool True)) (initial_world ''q'')))) =
     [\<lparr>name = JStr ''Dr. Chen'', role = JStr ''ESG Lead'', affiliation = JUndef,
       esgFocus = JUndef, esgCategories = JUndef\<rparr>] \<and>
   written (snd (processV5DataPart sample_clock (chen_event (JBool True)) (initial_world ''q''))) =
     written (initial_world ''q'')"
proof -
  have t: "field (chen_event (JBool True)) ''type'' = JStr ''data-analyst''"
    by (simp add: chen_event_def)
  have d: "\<not> nullish (field (chen_event (JBool True)) ''data'')"
    by (simp add: chen_event_def)
  show ?thesis
    using transient_analyst_not_forwarded[OF t d, of sample_clock "initial_world ''q''"] t d
    by (simp add: chen_event_def make_analyst_def upsert_analyst_def initial_world_def initial_state_def)
qed

section \<open>Progress events\<close>

lemma update_progress_fields:
  "current (progress (update_progress src st)) =
     (if truthy (field src ''current'') then field src ''current'' else current (progress st))"
  "total (progress (update_progress src st)) =
     (if truthy (field src ''total'') then field src ''total'' else total (progress st))"
  "message (progress (update_progress src st)) = field src ''message''"
  "phase (update_progress src st) =
     (if truthy (field src ''phase'') then field src ''phase'' else phase st)"
  "analysts (update_progress src st) = analysts st"
  "interviews (update_progress src st) = interviews st"
  "sections (update_progress src st) = sections st"
  "searches (update_progress src st) = searches st"
  "error (update_progress src st) = error st"
  "topic (update_progress src st) = topic st"
  by (simp_all add: update_progress_def Let_def or_else_def)

text \<open>
  C6, as the code has it.  A Progress event (a batch element read at its top level, a
  discrete event read in its \<open>data\<close>) overwrites \<open>current\<close> and \<open>total\<close> only with a
  truthy value, always overwrites \<open>message\<close> with the event's (undefined when absent),
  sets the phase only when the event supplies a truthy one, and leaves every other
  field of the session unchanged.
\<close>

theorem progress_event_effect:
  assumes "(field event ''type'' = JStr ''progress'' \<and> src = event \<and>
            r = processResearchEvent clock event w) \<or>
           (field event ''type'' = JStr ''data-progress'' \<and> src = field event ''data'' \<and>
            \<not> nullish src \<and> r = processV5DataPart clock event w)"
  shows "fst r = Returned \<and>
         current (progress (state (snd r))) =
           (if truthy (field src ''current'') then field src ''current''
            else current (progress (state w))) \<and>
         total (progress (state (snd r))) =
           (if truthy (field src ''total'') then field src ''total''
            else total (progress (state w))) \<and>
         message (progress (state (snd r))) = field src ''message'' \<and>
         phase (state (snd r)) =
           (if truthy (field src ''phase'') then field src ''phase'' else phase (state w)) \<and>
         analysts (state (snd r)) = analysts (state w) \<and>
         interviews (state (snd r)) = interviews (state w) \<and>
         sections (state (snd r)) = sections (state w) \<and>
         searches (state (snd r)) = searches (state w) \<and>
         error (state (snd r)) = error (state w) \<and>
         topic (state (snd r)) = topic (state w)"
proof -
  have ne: "\<not> nullish event" using assms field_JStr_not_nullish by blast
  have rf: "replace_first ''data-'' ''data-progress'' = ''progress''"
    using replace_first_prefix[of "''data-''" "''progress''"] by simp
  have "fst r = Returned \<and> state (snd r) = update_progress src (state w)"
    using assms
  proof
    assume "field event ''type'' = JStr ''progress'' \<and> src = event \<and>
            r = processResearchEvent clock event w"
    then show ?thesis
      using ne by (auto simp add: processResearchEvent_def research_progress_def Let_def writer_write_def)
  next
    assume "field event ''type'' = JStr ''data-progress'' \<and> src = field event ''data'' \<and>
            \<not> nullish src \<and> r = processV5DataPart clock event w"
    then show ?thesis
      using ne by (auto simp add: processV5DataPart_def rf v5_progress_def Let_def writer_write_def
          simp del: replace_first.simps)
  qed
  then show ?thesis by (simp add: update_progress_fields)
qed

theorem progress_event_effect_witness:
  "field progress_update ''type'' = JStr ''progress'' \<and>
   progress (state (snd (processResearchEvent sample_clock progress_update (initial_world ''q'')))) =
     \<lparr>current = JNum 2, total = JNum 0, message = JStr ''Interviewing''\<rparr> \<and>
   phase (state (snd (processResearchEvent sample_clock progress_update (initial_world ''q'')))) =
     JStr ''interviews'' \<and>
   field progress_without_message ''type'' = JStr ''data-progress'' \<and>
   \<not> nullish (field progress_without_message ''data'') \<and>
   progress (state (snd (processV5DataPart sample_clock progress_without_message
      (initial_world ''q'')))) =
     \<lparr>current = JNum 3, total = JNum 0, message = JUndef\<rparr> \<and>
   phase (state (snd (processV5DataPart sample_clock progress_without_message
      (initial_world ''q'')))) = JStr ''initialization''"
proof -
  have h1: "field progress_update ''type'' = JStr ''progress''"
    by (simp add: progress_update_def)
  have h2: "field progress_without_message ''type'' = JStr ''data-progress'' \<and>
            \<not> nullish (field progress_without_message ''data'')"
    by (simp add: progress_without_message_def)
  have f: "field progress_update ''current'' = JNum 2" "field progress_update ''total'' = JUndef"
    "field progress_update ''message'' = JStr ''Interviewing''"
    "field progress_update ''phase'' = JStr ''interviews''"
    "field (field progress_without_message ''data'') ''current'' = JNum 3"
    "field (field progress_without_message ''data'') ''total'' = JUndef"
    "field (field progress_without_message ''data'') ''message'' = JUndef"
    "field (field progress_without_message ''data'') ''phase'' = JUndef"
    by (simp_all add: progress_update_def progress_without_message_def)
  have i: "progress (state (initial_world ''q'')) =
      \<lparr>current = JNum 0, total = JNum 0, message = JStr ''Starting research...''\<rparr>"
    "phase (state (initial_world ''q'')) = JStr ''initialization''"
    by (simp_all add: initial_world_def initial_state_def)
  note a = progress_event_effect[of progress_update progress_update
      "processResearchEvent sample_clock progress_update (initial_world ''q'')"
      sample_clock "initial_world ''q''"]
  note b = progress_event_effect[of progress_without_message "field progress_without_message ''data''"
      "processV5DataPart sample_clock progress_without_message (initial_world ''q'')"
      sample_clock "initial_world ''q''"]
  have a': "progress (state (snd (processResearchEvent sample_clock progress_update (initial_world ''q'')))) =
     \<lparr>current = JNum 2, total = JNum 0, message = JStr ''Interviewing''\<rparr> \<and>
     phase (state (snd (processResearchEvent sample_clock progress_update (initial_world ''q'')))) =
     JStr ''interviews''"
    using a h1 f i by (auto intro: Progress.equality)
  have b': "progress (state (snd (processV5DataPart sample_clock progress_without_message
      (initial_world ''q'')))) =
     \<lparr>current = JNum 3, total = JNum 0, message = JUndef\<rparr> \<and>
   phase (state (snd (processV5DataPart sample_clock progress_without_message
      (initial_world ''q'')))) = JStr ''initialization''"
    using b h2 f i by (auto intro: Progress.equality)
  show ?thesis using h1 h2 a' b' by simp
qed

text \<open>
  C6 as the specification states it fails: a discrete Progress event without a \<open>message\<close> does not
  leave the stored message unchanged.
\<close>

theorem progress_absent_message_counterexample:
  "field (field progress_without_message ''data'') ''message'' = JUndef \<and>
   message (progress (state (initial_world ''q''))) = JStr ''Starting research...'' \<and>
   message (progress (state (snd (processV5DataPart sample_clock progress_without_message
     (initial_world ''q''))))) = JUndef"
  by (simp add: progress_without_message_def processV5DataPart_def v5_progress_def Let_def
      update_progress_def or_else_def initial_world_def initial_state_def startsWith_def)

section \<open>Raw token lines\<close>

lemma dropWhile_append_keep:
  "\<not> P y \<Longrightarrow> dropWhile P (xs @ y # ys) = dropWhile P xs @ y # ys"
  by (induction xs) auto

lemma trim_digit_colon:
  "\<not> is_space a \<Longrightarrow> \<not> is_space b \<Longrightarrow> trim (a # b # t) = a # b # trim_end t"
proof -
  assume a: "\<not> is_space a" and b: "\<not> is_space b"
  have "rev (a # b # t) = rev t @ b # [a]" by simp
  then have "dropWhile is_space (rev (a # b # t)) = dropWhile is_space (rev t) @ b # [a]"
    using b by (simp add: dropWhile_append_keep)
  then show ?thesis using a by (simp add: trim_def trim_end_def)
qed

lemma trim_end_id: "t = [] \<or> \<not> is_space (last t) \<Longrightarrow> trim_end t = t"
  by (cases t rule: rev_cases) (auto simp: trim_end_def)

lemma trim_id: "s \<noteq> [] \<Longrightarrow> \<not> is_space (hd s) \<Longrightarrow> \<not> is_space (last s) \<Longrightarrow> trim s = s"
proof -
  assume ne: "s \<noteq> []" and h: "\<not> is_space (hd s)" and l: "\<not> is_space (last s)"
  have a: "dropWhile is_space s = s" using ne h by (cases s) auto
  have b: "dropWhile is_space (rev s) = rev s" using ne l by (cases s rule: rev_cases) auto
  show ?thesis by (simp add: trim_def a b)
qed

lemma match_data_part_shape:
  assumes "n \<noteq> []" "CHR ''['' \<notin> set n" "j \<noteq> []"
      and "list_all (\<lambda>c. c \<noteq> CHR 0x0A \<and> c \<noteq> CHR 0x0D) j"
  shows "match_data_part (''2:'' @ n @ ''['' @ j @ '']'') = Some (n, j)"
proof -
  have tw: "takeWhile (\<lambda>c. c \<noteq> CHR ''['') (n @ ''['' @ j @ '']'') = n"
    using assms(2) by (induction n) auto
  have dw: "dropWhile (\<lambda>c. c \<noteq> CHR ''['') (n @ ''['' @ j @ '']'') = ''['' @ j @ '']''"
    using assms(2) by (induction n) auto
  have len: "3 \<le> length (''['' @ j @ '']'')" using assms(3) by (cases j) auto
  have bl: "butlast (tl (''['' @ j @ '']'')) = j" by (simp add: butlast_append)
  show ?thesis
    unfolding match_data_part_def Let_def
    using tw dw len bl assms by (simp add: startsWith_def)
qed

lemma raw_token_data_part:
  "trim s = s' \<Longrightarrow> \<not> startsWith s' ''0:'' \<Longrightarrow> startsWith s' ''2:'' \<Longrightarrow>
   match_data_part s' = Some (n, j) \<Longrightarrow> parse j = Some d \<Longrightarrow>
   process_raw_token parse clock s w =
     (Returned,
      snd (processV5DataPart clock (JObj [(''type'', JStr (''data-'' @ n)), (''data'', d)]) w))"
  by (simp add: process_raw_token_def Let_def)

text \<open>
  C8, as the code has it.  The line is trimmed before it is dispatched, so the token line
  \<open>0:t\<close> yields a text delta with \<open>t\<close> less its trailing whitespace (\<open>t\<close> itself when it
  has none) under the stream id \<open>research-text\<close>; \<open>3:t\<close> writes the parsed payload as a
  transient error part; \<open>2:name[json]\<close> hands the parsed payload to the discrete event
  path as a part of type \<open>data-name\<close>.
\<close>

theorem raw_token_dispatch:
  "processLangGraphEvent parse clock (JStr (''0:'' @ t)) w =
     (Returned, writer_write (Text_delta (JStr (trim_end t)) (JStr ''research-text'')) w) \<and>
   ((if t = [] then True else \<not> is_space (last t)) \<longrightarrow> trim_end t = t) \<and>
   processLangGraphEvent parse clock (JStr (''3:'' @ t)) w =
     (Returned,
      case parse (trim_end t) of
        None \<Rightarrow> w
      | Some errorData \<Rightarrow> writer_write (Data_part ''data-error'' (P_error_data errorData) True) w) \<and>
   (n \<noteq> [] \<and> CHR ''['' \<notin> set n \<and> j \<noteq> [] \<and>
    list_all (\<lambda>c. c \<noteq> CHR 0x0A \<and> c \<noteq> CHR 0x0D) j \<and> parse j = Some d \<longrightarrow>
    processLangGraphEvent parse clock (JStr (''2:'' @ n @ ''['' @ j @ '']'')) w =
      (Returned,
       snd (processV5DataPart clock (JObj [(''type'', JStr (''data-'' @ n)), (''data'', d)]) w)))"
proof -
  have sp: "\<not> is_space CHR ''0''" "\<not> is_space CHR ''2''" "\<not> is_space CHR ''3''"
    "\<not> is_space CHR '':''" "\<not> is_space CHR '']''"
    by (simp_all add: is_space_def)
  have t0: "trim (CHR ''0'' # CHR '':'' # t) = CHR ''0'' # CHR '':'' # trim_end t"
    using trim_digit_colon[of "CHR ''0''" "CHR '':''" t] sp by simp
  have t3: "trim (CHR ''3'' # CHR '':'' # t) = CHR ''3'' # CHR '':'' # trim_end t"
    using trim_digit_colon[of "CHR ''3''" "CHR '':''" t] sp by simp
  have c0: "processLangGraphEvent parse clock (JStr (''0:'' @ t)) w =
     (Returned, writer_write (Text_delta (JStr (trim_end t)) (JStr ''research-text'')) w)"
    by (simp add: processLangGraphEvent_def process_raw_token_def t0 Let_def startsWith_def)
  have c3: "processLangGraphEvent parse clock (JStr (''3:'' @ t)) w =
     (Returned,
      case parse (trim_end t) of
        None \<Rightarrow> w
      | Some errorData \<Rightarrow> writer_write (Data_part ''data-error'' (P_error_data errorData) True) w)"
    by (simp add: processLangGraphEvent_def process_raw_token_def t3 Let_def startsWith_def
        split: option.splits)
  have ce: "(if t = [] then True else \<not> is_space (last t)) \<longrightarrow> trim_end t = t"
    using trim_end_id[of t] by (auto split: if_splits)
  have c2: "processLangGraphEvent parse clock (JStr (''2:'' @ n @ ''['' @ j @ '']'')) w =
      (Returned,
       snd (processV5DataPart clock (JObj [(''type'', JStr (''data-'' @ n)), (''data'', d)]) w))"
    if h: "n \<noteq> []" "CHR ''['' \<notin> set n" "j \<noteq> []"
       "list_all (\<lambda>c. c \<noteq> CHR 0x0A \<and> c \<noteq> CHR 0x0D) j" "parse j = Some d"
  proof -
    let ?s = "''2:'' @ n @ ''['' @ j @ '']''"
    have tr: "trim ?s = ?s"
      by (rule trim_id) (simp_all add: sp)
    have m: "match_data_part ?s = Some (n, j)"
      using h by (intro match_data_part_shape) auto
    have sw: "startsWith ?s ''2:''" "\<not> startsWith ?s ''0:''"
      by (simp_all add: startsWith_def)
    have "process_raw_token parse clock ?s w =
      (Returned,
       snd (processV5DataPart clock (JObj [(''type'', JStr (''data-'' @ n)), (''data'', d)]) w))"
      using tr sw(2) sw(1) m h(5) by (rule raw_token_data_part)
    then show ?thesis
      by (simp add: processLangGraphEvent_def)
  qed
  show ?thesis using c0 c3 ce c2 by blast
qed

theorem raw_token_dispatch_witness:
  "processLangGraphEvent sample_parse sample_clock (JStr ''0:Hello'') (initial_world ''q'') =
     (Returned,
      writer_write (Text_delta (JStr ''Hello'') (JStr ''research-text'')) (initial_world ''q'')) \<and>
   (if ''Hello'' = [] then True else \<not> is_space (last ''Hello'')) \<and>
   trim_end ''Hello'' = ''Hello'' \<and>
   ''analyst'' \<noteq> [] \<and> CHR ''['' \<notin> set ''analyst'' \<and> ''{\"name\":\"Dr. Chen\"}'' \<noteq> [] \<and>
   list_all (\<lambda>c. c \<noteq> CHR 0x0A \<and> c \<noteq> CHR 0x0D) ''{\"name\":\"Dr. Chen\"}'' \<and>
   sample_parse ''{\"name\":\"Dr. Chen\"}'' = Some (JObj [(''name'', JStr ''Dr. Chen'')]) \<and>
   map name (analysts (state (snd (processLangGraphEvent sample_parse sample_clock
      (JStr ''2:analyst[{\"name\":\"Dr. Chen\"}]'') (initial_world ''q''))))) = [JStr ''Dr. Chen'']"
proof -
  have h1: "(if ''Hello'' = [] then True else \<not> is_space (last ''Hello''))"
    by (simp add: is_space_def)
  have h2: "''analyst'' \<noteq> [] \<and> CHR ''['' \<notin> set ''analyst'' \<and> ''{\"name\":\"Dr. Chen\"}'' \<noteq> [] \<and>
     list_all (\<lambda>c. c \<noteq> CHR 0x0A \<and> c \<noteq> CHR 0x0D) ''{\"name\":\"Dr. Chen\"}'' \<and>
     sample_parse ''{\"name\":\"Dr. Chen\"}'' = Some (JObj [(''name'', JStr ''Dr. Chen'')])"
    by (simp add: sample_parse_def)
  note inst = raw_token_dispatch[of sample_parse sample_clock "''Hello''" "initial_world ''q''"
      "''analyst''" "''{\"name\":\"Dr. Chen\"}''" "JObj [(''name'', JStr ''Dr. Chen'')]"]
  have e: "trim_end ''Hello'' = ''Hello''" using inst h1 by blast
  have a: "processLangGraphEvent sample_parse sample_clock (JStr ''0:Hello'') (initial_world ''q'') =
     (Returned,
      writer_write (Text_delta (JStr ''Hello'') (JStr ''research-text'')) (initial_world ''q''))"
    using inst e by simp
  have b: "processLangGraphEvent sample_parse sample_clock
      (JStr (''2:'' @ ''analyst'' @ ''['' @ ''{\"name\":\"Dr. Chen\"}'' @ '']'')) (initial_world ''q'') =
      (Returned,
       snd (processV5DataPart sample_clock
         (JObj [(''type'', JStr (''data-'' @ ''analyst'')), (''data'', JObj [(''name'', JStr ''Dr. Chen'')])])
         (initial_world ''q'')))"
    using inst h2 by blast
  have c: "map name (analysts (state (snd (processV5DataPart sample_clock
         (JObj [(''type'', JStr (''data-'' @ ''analyst'')), (''data'', JObj [(''name'', JStr ''Dr. Chen'')])])
         (initial_world ''q''))))) = [JStr ''Dr. Chen'']"
    by (simp add: processV5DataPart_def v5_analyst_def startsWith_def Let_def set_analysts_def
        writer_write_def make_analyst_def upsert_analyst_def initial_world_def initial_state_def)
  show ?thesis using h1 h2 e a b c by simp
qed

text \<open>C8 as the specification states it fails on a payload that ends in a space.\<close>

theorem raw_token_trailing_space_counterexample:
  "written (snd (processLangGraphEvent sample_parse sample_clock (JStr (''0:'' @ ''Hi ''))
      (initial_world ''q''))) =
     written (initial_world ''q'') @ [Text_delta (JStr ''Hi'') (JStr ''research-text'')] \<and>
   JStr ''Hi'' \<noteq> JStr ''Hi ''"
  by (simp add: processLangGraphEvent_def process_raw_token_def trim_def is_space_def
      startsWith_def Let_def writer_write_def initial_world_def initial_state_def)

section \<open>Search events\<close>

text \<open>
  C3.  A completed search with five results that arrives as a discrete typed event is
  not stored; the same payload as a batch element is.
\<close>

theorem discrete_search_not_persisted:
  "searches (state (snd (processV5DataPart sample_clock
      (JObj [(''type'', JStr ''data-search''), (''data'', completed_search)])
      (initial_world ''q'')))) = [] \<and>
   searches (state (snd (processResearchEvent sample_clock
      (JObj [(''type'', JStr ''search''), (''data'', completed_search)])
      (initial_world ''q'')))) =
     [\<lparr>tool = JStr ''web'', query = JStr ''esg'', resultsCount = JNum 5, sources = []\<rparr>]"
  by (simp add: processV5DataPart_def v5_search_def processResearchEvent_def research_search_def
      completed_search_def startsWith_def Let_def initial_world_def initial_state_def)

section \<open>Maps and transcripts\<close>



























section \<open>What processing leaves alone, and what it does to the roster\<close>

lemma write_caught [simp]: "caught (writer_write c w) = caught w"
  by (simp add: writer_write_def)

lemma write_state [simp]: "state (writer_write c w) = state w"
  by (simp add: writer_write_def)

lemma write_complete [simp]:
  "filter is_complete (written (writer_write c w)) =
     filter is_complete (written w) @ (if is_complete c then [c] else [])"
  by (simp add: writer_write_def)

lemma tick_frame [simp]: "caught (tick w) = caught w" "state (tick w) = state w"
  "written (tick w) = written w"
  by (simp_all add: tick_def)

lemma set_interviews_frame [simp]:
  "caught (set_interviews m w) = caught w" "written (set_interviews m w) = written w"
  "analysts (state (set_interviews m w)) = analysts (state w)"
  "interviews (state (set_interviews m w)) = m"
  by (simp_all add: set_interviews_def)

lemma set_analysts_frame [simp]:
  "caught (set_analysts xs w) = caught w" "written (set_analysts xs w) = written w"
  "analysts (state (set_analysts xs w)) = xs"
  by (simp_all add: set_analysts_def)

lemma push_message_frame [simp]:
  "caught (push_message i msg w) = caught w"
  "analysts (state (push_message i msg w)) = analysts (state w)"
  "filter is_complete (written (push_message i msg w)) = filter is_complete (written w)"
  by (simp_all add: push_message_def Let_def is_complete_def)

lemma update_progress_analysts [simp]: "analysts (update_progress src st) = analysts st"
  by (simp add: update_progress_def Let_def)

lemma keeps_refl [simp]: "keeps w w"
  by (simp add: keeps_def)

lemma keeps_research_progress: "keeps w (snd (research_progress e w))"
  by (simp add: research_progress_def Let_def keeps_def is_complete_def)

lemma keeps_research_interview: "keeps w (snd (research_interview clock e w))"
  by (simp add: research_interview_def Let_def keeps_def is_complete_def)

lemma keeps_research_search: "keeps w (snd (research_search e w))"
  by (simp add: research_search_def Let_def keeps_def is_complete_def)

lemma keeps_research_section: "keeps w (snd (research_section e w))"
  by (simp add: research_section_def Let_def keeps_def is_complete_def)

lemma keeps_research_error: "keeps w (snd (research_error e w))"
  by (simp add: research_error_def Let_def keeps_def is_complete_def)

lemma keeps_v5_progress: "keeps w (snd (v5_progress d t w))"
  by (simp add: v5_progress_def Let_def keeps_def is_complete_def)

lemma keeps_v5_interview: "keeps w (snd (v5_interview clock d w))"
  by (simp add: v5_interview_def Let_def keeps_def is_complete_def)

lemma keeps_v5_search: "keeps w (snd (v5_search d t w))"
  by (simp add: v5_search_def Let_def keeps_def is_complete_def)

lemma keeps_v5_section: "keeps w (snd (v5_section d i t w))"
  by (simp add: v5_section_def Let_def keeps_def is_complete_def)

lemma keeps_v5_error: "keeps w (snd (v5_error d t w))"
  by (simp add: v5_error_def Let_def keeps_def is_complete_def)

lemma keeps_v5_metadata: "keeps w (snd (v5_metadata d t w))"
  by (simp add: v5_metadata_def Let_def keeps_def is_complete_def)

lemma research_analyst_effect:
  "caught (snd (research_analyst e w)) = caught w \<and>
   filter is_complete (written (snd (research_analyst e w))) = filter is_complete (written w) \<and>
   analysts (state (snd (research_analyst e w))) =
     (if fst (research_analyst e w) = Returned
      then upsert_analyst (make_analyst (field e ''data'')) (analysts (state w))
      else analysts (state w)) \<and>
   (fst (research_analyst e w) = Returned) = (\<not> nullish (field e ''data''))"
  by (simp add: research_analyst_def Let_def is_complete_def)

lemma v5_analyst_effect:
  "caught (snd (v5_analyst d t w)) = caught w \<and>
   filter is_complete (written (snd (v5_analyst d t w))) = filter is_complete (written w) \<and>
   analysts (state (snd (v5_analyst d t w))) =
     (if \<not> nullish d
      then upsert_analyst (make_analyst d) (analysts (state w))
      else analysts (state w))"
  by (simp add: v5_analyst_def Let_def is_complete_def)

lemma processResearchEvent_keeps:
  "field e ''type'' \<noteq> JStr ''analyst'' \<Longrightarrow> keeps w (snd (processResearchEvent clock e w))"
  by (simp add: processResearchEvent_def Let_def keeps_research_progress
      keeps_research_interview keeps_research_search keeps_research_section
      keeps_research_error)

lemma processResearchEvent_analyst:
  "field e ''type'' = JStr ''analyst'' \<Longrightarrow>
   processResearchEvent clock e w = research_analyst e w"
  by (cases e) (simp_all add: processResearchEvent_def)

lemma processV5DataPart_keeps:
  "\<not> is_v5_analyst e \<Longrightarrow> keeps w (snd (processV5DataPart clock e w))"
  by (cases "field e ''type''")
     (simp_all add: processV5DataPart_def is_v5_analyst_def Let_def keeps_v5_progress
      keeps_v5_interview keeps_v5_search keeps_v5_section keeps_v5_error keeps_v5_metadata
      del: replace_first.simps)

lemma processV5DataPart_analyst:
  "is_v5_analyst e \<Longrightarrow>
   processV5DataPart clock e w = v5_analyst (field e ''data'') (field e ''transient'') w"
  by (cases "field e ''type''"; cases e)
     (simp_all add: processV5DataPart_def is_v5_analyst_def Let_def del: replace_first.simps)

lemma processResearchEvent_effect:
  "caught (snd (processResearchEvent clock e w)) = caught w \<and>
   filter is_complete (written (snd (processResearchEvent clock e w))) =
     filter is_complete (written w) \<and>
   analysts (state (snd (processResearchEvent clock e w))) =
     (if field e ''type'' = JStr ''analyst'' \<and> \<not> nullish (field e ''data'')
      then upsert_analyst (make_analyst (field e ''data'')) (analysts (state w))
      else analysts (state w))"
proof (cases "field e ''type'' = JStr ''analyst''")
  case True
  then show ?thesis
    using research_analyst_effect[of e w] by (simp add: processResearchEvent_analyst)
next
  case False
  then show ?thesis using processResearchEvent_keeps[OF False, of w clock] by (simp add: keeps_def)
qed

lemma processResearchEvent_analyst_returned:
  "field e ''type'' = JStr ''analyst'' \<Longrightarrow>
   (fst (processResearchEvent clock e w) = Returned) = (\<not> nullish (field e ''data''))"
  using research_analyst_effect[of e w] by (simp add: processResearchEvent_analyst)

lemma processV5DataPart_effect:
  "caught (snd (processV5DataPart clock e w)) = caught w \<and>
   filter is_complete (written (snd (processV5DataPart clock e w))) =
     filter is_complete (written w) \<and>
   analysts (state (snd (processV5DataPart clock e w))) =
     (if is_v5_analyst e \<and> \<not> nullish (field e ''data'')
      then upsert_analyst (make_analyst (field e ''data'')) (analysts (state w))
      else analysts (state w))"
proof (cases "is_v5_analyst e")
  case True
  then show ?thesis
    using v5_analyst_effect[of "field e ''data''" "field e ''transient''" w]
    by (simp add: processV5DataPart_analyst)
next
  case False
  then show ?thesis using processV5DataPart_keeps[OF False, of w clock] by (simp add: keeps_def)
qed

lemma strict_eq_sym: "strict_eq a b = strict_eq b a"
  by (auto simp: strict_eq_def)

lemma upsert_Nil [simp]: "upsert_analyst a [] = [a]"
  by (simp add: upsert_analyst_def)

lemma upsert_Cons:
  "upsert_analyst a (x # xs) =
     (if strict_eq (name x) (name a) then a # xs else x # upsert_analyst a xs)"
  by (simp add: upsert_analyst_def split: option.splits)

lemma upsert_names: "set (map name (upsert_analyst a xs)) = insert (name a) (set (map name xs))"
  by (induction xs) (auto simp: upsert_Cons strict_eq_def)

lemma upsert_list_ex:
  "list_ex (\<lambda>b. strict_eq (name b) n) (upsert_analyst a xs) =
     (list_ex (\<lambda>b. strict_eq (name b) n) xs \<or> strict_eq (name a) n)"
  by (induction xs) (auto simp: upsert_Cons strict_eq_def)

lemma upsert_no_shared: "no_shared_name xs \<Longrightarrow> no_shared_name (upsert_analyst a xs)"
proof (induction xs)
  case Nil
  then show ?case by simp
next
  case (Cons x xs)
  show ?case
  proof (cases "strict_eq (name x) (name a)")
    case True
    then have "name a = name x" by (simp add: strict_eq_def)
    then show ?thesis using Cons.prems True by (simp add: upsert_Cons)
  next
    case False
    then have "\<not> strict_eq (name a) (name x)" using strict_eq_sym by blast
    then show ?thesis using Cons False by (simp add: upsert_Cons upsert_list_ex)
  qed
qed

lemma process_items_frame:
  "caught (snd (process_items clock names items w)) = caught w \<and>
   filter is_complete (written (snd (process_items clock names items w))) =
     filter is_complete (written w)"
proof (induction items arbitrary: w)
  case Nil
  then show ?case by simp
next
  case (Cons item items)
  obtain out w' where r: "processResearchEvent clock item w = (out, w')"
    by (cases "processResearchEvent clock item w")
  have e: "caught w' = caught w \<and> filter is_complete (written w') = filter is_complete (written w)"
    using processResearchEvent_effect[of clock item w] r by simp
  show ?case
    using Cons.IH[of w] Cons.IH[of w'] e r
    by (cases out) (simp_all)
qed

lemma process_items_inv:
  assumes closed: "\<And>a xs. P xs \<Longrightarrow> P (upsert_analyst a xs)"
  shows "P (analysts (state w)) \<Longrightarrow> P (analysts (state (snd (process_items clock names items w))))"
proof (induction items arbitrary: w)
  case Nil
  then show ?case by simp
next
  case (Cons item items)
  obtain out w' where r: "processResearchEvent clock item w = (out, w')"
    by (cases "processResearchEvent clock item w")
  have e: "P (analysts (state w'))"
    using processResearchEvent_effect[of clock item w] r Cons.prems closed by auto
  show ?case
    using Cons.IH[of w, OF Cons.prems] Cons.IH[of w', OF e] e r Cons.prems
    by (cases out) (simp_all)
qed

lemma process_other_object_frame:
  "caught (snd (process_other_object clock names e w)) = caught w \<and>
   filter is_complete (written (snd (process_other_object clock names e w))) =
     filter is_complete (written w)"
  by (simp add: process_other_object_def Let_def process_items_frame is_complete_def
      split: json.splits)

lemma process_other_object_inv:
  assumes closed: "\<And>a xs. P xs \<Longrightarrow> P (upsert_analyst a xs)"
  shows "P (analysts (state w)) \<Longrightarrow>
         P (analysts (state (snd (process_other_object clock names e w))))"
  using process_items_inv[of P w clock names, OF closed]
  by (simp add: process_other_object_def Let_def split: json.splits)

lemma processV5DataPart_inv:
  assumes closed: "\<And>a xs. P xs \<Longrightarrow> P (upsert_analyst a xs)"
  shows "P (analysts (state w)) \<Longrightarrow> P (analysts (state (snd (processV5DataPart clock e w))))"
  using processV5DataPart_effect[of clock e w] closed by auto

lemma process_object_frame:
  "caught (snd (process_object clock names e w)) = caught w \<and>
   filter is_complete (written (snd (process_object clock names e w))) =
     filter is_complete (written w)"
  by (simp add: process_object_def process_other_object_frame processV5DataPart_effect
      split: json.splits)

lemma process_object_inv:
  assumes closed: "\<And>a xs. P xs \<Longrightarrow> P (upsert_analyst a xs)"
  shows "P (analysts (state w)) \<Longrightarrow> P (analysts (state (snd (process_object clock names e w))))"
  using process_other_object_inv[of P w clock names e, OF closed]
    processV5DataPart_inv[of P w clock e, OF closed]
  by (simp add: process_object_def split: json.splits)

lemma process_raw_token_frame:
  "caught (snd (process_raw_token parse clock s w)) = caught w \<and>
   filter is_complete (written (snd (process_raw_token parse clock s w))) =
     filter is_complete (written w)"
  by (simp add: process_raw_token_def Let_def processV5DataPart_effect is_complete_def
      split: option.splits)

lemma process_raw_token_inv:
  assumes closed: "\<And>a xs. P xs \<Longrightarrow> P (upsert_analyst a xs)"
  shows "P (analysts (state w)) \<Longrightarrow>
         P (analysts (state (snd (process_raw_token parse clock s w))))"
  using processV5DataPart_inv[of P w clock, OF closed]
  by (simp add: process_raw_token_def Let_def split: option.splits)

lemma processLangGraphEvent_frame:
  "caught (snd (processLangGraphEvent parse clock e w)) = caught w \<and>
   filter is_complete (written (snd (processLangGraphEvent parse clock e w))) =
     filter is_complete (written w)"
  by (simp add: processLangGraphEvent_def Let_def process_items_frame process_object_frame
      process_raw_token_frame split: json.splits)

lemma processLangGraphEvent_inv:
  assumes closed: "\<And>a xs. P xs \<Longrightarrow> P (upsert_analyst a xs)"
  shows "P (analysts (state w)) \<Longrightarrow>
         P (analysts (state (snd (processLangGraphEvent parse clock e w))))"
  using process_items_inv[of P w clock, OF closed] process_object_inv[of P w clock, OF closed]
    process_raw_token_inv[of P w parse clock, OF closed]
  by (simp add: processLangGraphEvent_def Let_def split: json.splits)

lemma process_line_frame:
  "filter is_complete (written (process_line parse clock line w)) =
     filter is_complete (written w)"
proof -
  have "filter is_complete (written (snd (processLangGraphEvent parse clock d w))) =
     filter is_complete (written w)" for d
    using processLangGraphEvent_frame by blast
  then show ?thesis
    by (auto simp: process_line_def split: option.splits prod.splits outcome.splits)
       (metis snd_conv)+
qed

lemma process_line_inv:
  assumes closed: "\<And>a xs. P xs \<Longrightarrow> P (upsert_analyst a xs)"
  shows "P (analysts (state w)) \<Longrightarrow> P (analysts (state (process_line parse clock line w)))"
proof -
  assume p: "P (analysts (state w))"
  have "P (analysts (state (snd (processLangGraphEvent parse clock d w))))" for d
    using processLangGraphEvent_inv[of P w parse clock d, OF closed p] .
  then show ?thesis using p
    by (auto simp: process_line_def split: option.splits prod.splits outcome.splits)
       (metis snd_conv)+
qed

lemma process_lines_frame:
  "filter is_complete (written (process_lines parse clock lines w)) =
     filter is_complete (written w)"
  by (induction lines arbitrary: w) (simp_all add: process_line_frame)

lemma process_lines_inv:
  assumes closed: "\<And>a xs. P xs \<Longrightarrow> P (upsert_analyst a xs)"
  shows "P (analysts (state w)) \<Longrightarrow> P (analysts (state (process_lines parse clock lines w)))"
  by (induction lines arbitrary: w) (simp_all add: process_line_inv[of P, OF closed])

section \<open>The two source shapes\<close>

text \<open>
  C1, as the code has it.  The two shapes have separate code.  For the kinds analyst and
  metadata (and any kind neither path handles) a batch element and a discrete event
  with the same data, and no transient flag, have the same outcome, the same state and
  the same writes; for the kind error they have the same outcome and the same state.
\<close>

theorem two_shapes_agree:
  "(k \<notin> {''progress'', ''interview'', ''search'', ''section'', ''error''} \<longrightarrow>
      processResearchEvent clock (JObj [(''type'', JStr k), (''data'', d)]) w =
      processV5DataPart clock (JObj [(''type'', JStr (''data-'' @ k)), (''data'', d)]) w) \<and>
   fst (processResearchEvent clock (JObj [(''type'', JStr ''error''), (''data'', d)]) w) =
     fst (processV5DataPart clock (JObj [(''type'', JStr ''data-error''), (''data'', d)]) w) \<and>
   state (snd (processResearchEvent clock (JObj [(''type'', JStr ''error''), (''data'', d)]) w)) =
     state (snd (processV5DataPart clock (JObj [(''type'', JStr ''data-error''), (''data'', d)]) w))"
proof -
  have rf: "replace_first ''data-'' (''data-'' @ k) = k" for k
    by (rule replace_first_prefix) simp
  have rf': "replace_first ''data-'' (CHR ''d'' # CHR ''a'' # CHR ''t'' # CHR ''a'' # CHR ''-'' # k) = k" for k
    using rf[of k] by simp
  have a: "processResearchEvent clock (JObj [(''type'', JStr k), (''data'', d)]) w =
      processV5DataPart clock (JObj [(''type'', JStr (''data-'' @ k)), (''data'', d)]) w"
    if "k \<notin> {''progress'', ''interview'', ''search'', ''section'', ''error''}"
    using that
    by (simp add: processResearchEvent_def processV5DataPart_def rf' Let_def
        research_analyst_def v5_analyst_def v5_metadata_def del: replace_first.simps)
  have b: "fst (processResearchEvent clock (JObj [(''type'', JStr ''error''), (''data'', d)]) w) =
     fst (processV5DataPart clock (JObj [(''type'', JStr ''data-error''), (''data'', d)]) w) \<and>
   state (snd (processResearchEvent clock (JObj [(''type'', JStr ''error''), (''data'', d)]) w)) =
     state (snd (processV5DataPart clock (JObj [(''type'', JStr ''data-error''), (''data'', d)]) w))"
    using rf'[of "''error''"]
    by (simp add: processResearchEvent_def processV5DataPart_def Let_def
        research_error_def v5_error_def writer_write_def del: replace_first.simps)
  show ?thesis using a b by blast
qed

theorem two_shapes_agree_witness:
  "''analyst'' \<notin> {''progress'', ''interview'', ''search'', ''section'', ''error''} \<and>
   processV5DataPart sample_clock
     (JObj [(''type'', JStr (''data-'' @ ''analyst'')), (''data'', JObj [(''name'', JStr ''A'')])])
     (initial_world ''q'') =
   processResearchEvent sample_clock
     (JObj [(''type'', JStr ''analyst''), (''data'', JObj [(''name'', JStr ''A'')])])
     (initial_world ''q'') \<and>
   map name (analysts (state (snd (processResearchEvent sample_clock
     (JObj [(''type'', JStr ''analyst''), (''data'', JObj [(''name'', JStr ''A'')])])
     (initial_world ''q''))))) = [JStr ''A'']"
proof -
  have h: "''analyst'' \<notin> {''progress'', ''interview'', ''search'', ''section'', ''error''}"
    by simp
  have e: "processResearchEvent sample_clock
     (JObj [(''type'', JStr ''analyst''), (''data'', JObj [(''name'', JStr ''A'')])])
     (initial_world ''q'') =
     processV5DataPart sample_clock
     (JObj [(''type'', JStr (''data-'' @ ''analyst'')), (''data'', JObj [(''name'', JStr ''A'')])])
     (initial_world ''q'')"
    using two_shapes_agree[of "''analyst''" sample_clock "JObj [(''name'', JStr ''A'')]"
        "initial_world ''q''"] h by blast
  have v: "map name (analysts (state (snd (processResearchEvent sample_clock
     (JObj [(''type'', JStr ''analyst''), (''data'', JObj [(''name'', JStr ''A'')])])
     (initial_world ''q''))))) = [JStr ''A'']"
    by (simp add: processResearchEvent_def research_analyst_def Let_def make_analyst_def
        upsert_analyst_def initial_world_def initial_state_def)
  show ?thesis using h e v by simp
qed

text \<open>
  C1 as the specification states it fails for the kind section: the discrete event, having no id, is
  not stored, and the two paths write different parts.
\<close>

theorem two_shapes_section_counterexample:
  "sections (state (snd (processResearchEvent sample_clock
      (JObj [(''type'', JStr ''section''), (''data'', section_data)]) (initial_world ''q'')))) =
     [(JStr ''A'', JStr ''Draft'')] \<and>
   sections (state (snd (processV5DataPart sample_clock
      (JObj [(''type'', JStr ''data-section''), (''data'', section_data)]) (initial_world ''q'')))) =
     [] \<and>
   written (snd (processResearchEvent sample_clock
      (JObj [(''type'', JStr ''section''), (''data'', section_data)]) (initial_world ''q''))) \<noteq>
   written (snd (processV5DataPart sample_clock
      (JObj [(''type'', JStr ''data-section''), (''data'', section_data)]) (initial_world ''q'')))"
  by (simp add: processResearchEvent_def processV5DataPart_def research_section_def
      v5_section_def section_data_def startsWith_def Let_def writer_write_def
      initial_world_def initial_state_def)

section \<open>The roster\<close>

lemma read_loop_inv:
  assumes closed: "\<And>a xs. P xs \<Longrightarrow> P (upsert_analyst a xs)"
  shows "P (analysts (state w)) \<Longrightarrow> P (analysts (state (snd (read_loop parse clock chunks buffer w))))"
  by (simp add: read_loop_frame_all process_lines_inv[of P, OF closed])

lemma batch_skip:
  assumes "field e ''type'' = JStr ''analyst''"
      and "list_ex (\<lambda>n. strict_eq n (opt_field (field e ''data'') ''name''))
             (map name (analysts (state w)))"
  shows "processLangGraphEvent parse clock (JArr [e]) w = (Returned, w)"
proof -
  have "\<not> nullish e" using assms(1) by (rule field_JStr_not_nullish)
  then show ?thesis using assms
    by (simp add: processLangGraphEvent_def skip_analyst_def)
qed

lemma discrete_skip:
  assumes "field e ''type'' = JStr ''data-analyst''"
      and "truthy (field (field e ''data'') ''name'')"
      and "list_ex (\<lambda>n. strict_eq n (field (field e ''data'') ''name''))
             (map name (analysts (state w)))"
  shows "processLangGraphEvent parse clock e w = (Returned, w)"
proof -
  have ne: "\<not> nullish e" using assms(1) by (rule field_JStr_not_nullish)
  have nd: "\<not> nullish (field e ''data'')" using assms(2) by (cases "field e ''data''") auto
  obtain kvs where e: "e = JObj kvs" using assms(1) by (cases e) auto
  have sw: "startsWith ''data-analyst'' ''data-''" by (simp add: startsWith_def)
  show ?thesis
    using assms nd sw unfolding e
    by (simp add: processLangGraphEvent_def process_object_def skip_v5_analyst_def opt_field_def
        del: field.simps)
qed

text \<open>
  C2, as the code has it.  No two entries of the roster share a name, after any event
  and at the end of any stream.  An Analyst event whose name is in the roster never
  appends: the reconciler of either path replaces the entry found with the event's
  fields, and \<^verbatim>\<open>processLangGraphEvent\<close> skips a batch element, or a discrete event with
  a truthy name, whose name is in the roster when the line's processing begins.
\<close>

theorem analyst_roster_upsert:
  "no_shared_name (analysts (state (streamFromLangGraph parse clock chunks (initial_world q)))) \<and>
   (no_shared_name (analysts (state w)) \<longrightarrow>
      no_shared_name (analysts (state (snd (processLangGraphEvent parse clock ev w))))) \<and>
   (\<not> nullish (field e ''data'') \<and>
    findIndex (\<lambda>x. strict_eq (name x) (field (field e ''data'') ''name'')) (analysts (state w)) = Some i
    \<longrightarrow>
      (field e ''type'' = JStr ''analyst'' \<longrightarrow>
         analysts (state (snd (processResearchEvent clock e w))) =
           (analysts (state w))[i := make_analyst (field e ''data'')]) \<and>
      (field e ''type'' = JStr ''data-analyst'' \<longrightarrow>
         analysts (state (snd (processV5DataPart clock e w))) =
           (analysts (state w))[i := make_analyst (field e ''data'')])) \<and>
   (field e ''type'' = JStr ''analyst'' \<and>
    list_ex (\<lambda>n. strict_eq n (opt_field (field e ''data'') ''name''))
      (map name (analysts (state w)))
    \<longrightarrow> processLangGraphEvent parse clock (JArr [e]) w = (Returned, w)) \<and>
   (field e ''type'' = JStr ''data-analyst'' \<and> truthy (field (field e ''data'') ''name'') \<and>
    list_ex (\<lambda>n. strict_eq n (field (field e ''data'') ''name''))
      (map name (analysts (state w)))
    \<longrightarrow> processLangGraphEvent parse clock e w = (Returned, w))"
proof -
  have a: "no_shared_name (analysts (state (streamFromLangGraph parse clock chunks (initial_world q))))"
  proof -
    have "no_shared_name (analysts (state (initial_world q)))"
      by (simp add: initial_world_def initial_state_def)
    then have "no_shared_name (analysts (state (snd (read_loop parse clock chunks [] (initial_world q)))))"
      using read_loop_inv[of no_shared_name "initial_world q" parse clock chunks "[]"]
        upsert_no_shared by blast
    then show ?thesis by (simp add: streamFromLangGraph_def Let_def)
  qed
  have b: "no_shared_name (analysts (state w)) \<longrightarrow>
      no_shared_name (analysts (state (snd (processLangGraphEvent parse clock ev w))))"
    using processLangGraphEvent_inv[of no_shared_name w parse clock ev, OF upsert_no_shared]
    by blast
  have ups: "upsert_analyst (make_analyst (field e ''data'')) (analysts (state w)) =
      (analysts (state w))[i := make_analyst (field e ''data'')]"
    if "findIndex (\<lambda>x. strict_eq (name x) (field (field e ''data'') ''name'')) (analysts (state w)) = Some i"
    using that by (simp add: upsert_analyst_def make_analyst_def)
  have rf: "replace_first ''data-'' ''data-analyst'' = ''analyst''"
    using replace_first_prefix[of "''data-''" "''analyst''"] by simp
  have c: "analysts (state (snd (processResearchEvent clock e w))) =
           (analysts (state w))[i := make_analyst (field e ''data'')]"
    if "\<not> nullish (field e ''data'')" "field e ''type'' = JStr ''analyst''"
       "findIndex (\<lambda>x. strict_eq (name x) (field (field e ''data'') ''name'')) (analysts (state w)) = Some i"
    using processResearchEvent_effect[of clock e w] that ups by simp
  have d: "analysts (state (snd (processV5DataPart clock e w))) =
           (analysts (state w))[i := make_analyst (field e ''data'')]"
    if "\<not> nullish (field e ''data'')" "field e ''type'' = JStr ''data-analyst''"
       "findIndex (\<lambda>x. strict_eq (name x) (field (field e ''data'') ''name'')) (analysts (state w)) = Some i"
    using processV5DataPart_effect[of clock e w] that ups rf
    by (simp add: is_v5_analyst_def del: replace_first.simps)
  show ?thesis
    using a b c d batch_skip[of e w parse clock] discrete_skip[of e w parse clock] by blast
qed

lemma after_first_analyst_roster:
  "analysts (state after_first_analyst) =
     [\<lparr>name = JStr ''A'', role = JStr ''R1'', affiliation = JUndef, esgFocus = JUndef,
       esgCategories = JUndef\<rparr>]"
  by (simp add: after_first_analyst_def processLangGraphEvent_def skip_analyst_def
      analyst_item_def processResearchEvent_def research_analyst_def Let_def make_analyst_def
      upsert_analyst_def initial_world_def initial_state_def)

theorem analyst_roster_upsert_witness:
  "no_shared_name (analysts (state after_first_analyst)) \<and>
   \<not> nullish (field (analyst_item ''A'' ''R2'') ''data'') \<and>
   findIndex (\<lambda>x. strict_eq (name x) (field (field (analyst_item ''A'' ''R2'') ''data'') ''name''))
     (analysts (state after_first_analyst)) = Some 0 \<and>
   field (analyst_item ''A'' ''R2'') ''type'' = JStr ''analyst'' \<and>
   analysts (state (snd (processResearchEvent sample_clock (analyst_item ''A'' ''R2'')
      after_first_analyst))) =
     [\<lparr>name = JStr ''A'', role = JStr ''R2'', affiliation = JUndef, esgFocus = JUndef,
       esgCategories = JUndef\<rparr>] \<and>
   list_ex (\<lambda>n. strict_eq n (opt_field (field (analyst_item ''A'' ''R2'') ''data'') ''name''))
     (map name (analysts (state after_first_analyst))) \<and>
   processLangGraphEvent sample_parse sample_clock (JArr [analyst_item ''A'' ''R2''])
     after_first_analyst = (Returned, after_first_analyst) \<and>
   no_shared_name (analysts (state (snd (processLangGraphEvent sample_parse sample_clock
     (JArr [analyst_item ''A'' ''R2'']) after_first_analyst)))) \<and>
   \<not> nullish (field discrete_analyst_update ''data'') \<and>
   findIndex (\<lambda>x. strict_eq (name x) (field (field discrete_analyst_update ''data'') ''name''))
     (analysts (state after_first_analyst)) = Some 0 \<and>
   field discrete_analyst_update ''type'' = JStr ''data-analyst'' \<and>
   analysts (state (snd (processV5DataPart sample_clock discrete_analyst_update
      after_first_analyst))) =
     [\<lparr>name = JStr ''A'', role = JStr ''R2'', affiliation = JUndef, esgFocus = JUndef,
       esgCategories = JUndef\<rparr>] \<and>
   truthy (field (field discrete_analyst_update ''data'') ''name'') \<and>
   list_ex (\<lambda>n. strict_eq n (field (field discrete_analyst_update ''data'') ''name''))
     (map name (analysts (state after_first_analyst))) \<and>
   processLangGraphEvent sample_parse sample_clock discrete_analyst_update after_first_analyst =
     (Returned, after_first_analyst)"
proof -
  note r = after_first_analyst_roster
  have h1: "no_shared_name (analysts (state after_first_analyst))" by (simp add: r)
  have h2: "\<not> nullish (field (analyst_item ''A'' ''R2'') ''data'')"
    by (simp add: analyst_item_def)
  have h3: "findIndex (\<lambda>x. strict_eq (name x) (field (field (analyst_item ''A'' ''R2'') ''data'') ''name''))
     (analysts (state after_first_analyst)) = Some 0"
    by (simp add: r analyst_item_def strict_eq_def)
  have h4: "field (analyst_item ''A'' ''R2'') ''type'' = JStr ''analyst''"
    by (simp add: analyst_item_def)
  have h5: "list_ex (\<lambda>n. strict_eq n (opt_field (field (analyst_item ''A'' ''R2'') ''data'') ''name''))
     (map name (analysts (state after_first_analyst)))"
    by (simp add: r analyst_item_def strict_eq_def opt_field_def)
  note t = analyst_roster_upsert[of sample_parse sample_clock "[]" "''q''" after_first_analyst
      "JArr [analyst_item ''A'' ''R2'']" "analyst_item ''A'' ''R2''" 0]
  have c1: "analysts (state (snd (processResearchEvent sample_clock (analyst_item ''A'' ''R2'')
      after_first_analyst))) =
      (analysts (state after_first_analyst))[0 := make_analyst (field (analyst_item ''A'' ''R2'') ''data'')]"
    using t h2 h3 h4 by blast
  have c2: "processLangGraphEvent sample_parse sample_clock (JArr [analyst_item ''A'' ''R2''])
     after_first_analyst = (Returned, after_first_analyst)"
    using t h4 h5 by blast
  have c3: "no_shared_name (analysts (state (snd (processLangGraphEvent sample_parse sample_clock
     (JArr [analyst_item ''A'' ''R2'']) after_first_analyst))))"
    using t h1 by blast
  have v: "(analysts (state after_first_analyst))[0 := make_analyst (field (analyst_item ''A'' ''R2'') ''data'')] =
     [\<lparr>name = JStr ''A'', role = JStr ''R2'', affiliation = JUndef, esgFocus = JUndef,
       esgCategories = JUndef\<rparr>]"
    by (simp add: r analyst_item_def make_analyst_def)
  have g2: "\<not> nullish (field discrete_analyst_update ''data'')"
    by (simp add: discrete_analyst_update_def)
  have g3: "findIndex (\<lambda>x. strict_eq (name x) (field (field discrete_analyst_update ''data'') ''name''))
     (analysts (state after_first_analyst)) = Some 0"
    by (simp add: r discrete_analyst_update_def strict_eq_def)
  have g4: "field discrete_analyst_update ''type'' = JStr ''data-analyst''"
    by (simp add: discrete_analyst_update_def)
  have g5: "truthy (field (field discrete_analyst_update ''data'') ''name'') \<and>
     list_ex (\<lambda>n. strict_eq n (field (field discrete_analyst_update ''data'') ''name''))
       (map name (analysts (state after_first_analyst)))"
    by (simp add: r discrete_analyst_update_def strict_eq_def)
  note t' = analyst_roster_upsert[of sample_parse sample_clock "[]" "''q''" after_first_analyst
      discrete_analyst_update discrete_analyst_update 0]
  have d1: "analysts (state (snd (processV5DataPart sample_clock discrete_analyst_update
      after_first_analyst))) =
      (analysts (state after_first_analyst))[0 := make_analyst (field discrete_analyst_update ''data'')]"
    using t' g2 g3 g4 by blast
  have d2: "processLangGraphEvent sample_parse sample_clock discrete_analyst_update
     after_first_analyst = (Returned, after_first_analyst)"
    using t' g4 g5 by blast
  have v': "(analysts (state after_first_analyst))[0 := make_analyst (field discrete_analyst_update ''data'')] =
     [\<lparr>name = JStr ''A'', role = JStr ''R2'', affiliation = JUndef, esgFocus = JUndef,
       esgCategories = JUndef\<rparr>]"
    by (simp add: r discrete_analyst_update_def make_analyst_def)
  show ?thesis using h1 h2 h3 h4 h5 c1 c2 c3 v g2 g3 g4 g5 d1 d2 v' by simp
qed

text \<open>
  C2 as the specification states it fails across lines: the second line's analyst is skipped, and the
  entry keeps the fields of the first occurrence.
\<close>

theorem analyst_second_line_counterexample:
  "map role (analysts (state (snd (processLangGraphEvent sample_parse sample_clock
      (JArr [analyst_item ''A'' ''R2''])
      (snd (processLangGraphEvent sample_parse sample_clock (JArr [analyst_item ''A'' ''R1''])
         (initial_world ''q''))))))) = [JStr ''R1'']"
proof -
  have "processLangGraphEvent sample_parse sample_clock (JArr [analyst_item ''A'' ''R2''])
     after_first_analyst = (Returned, after_first_analyst)"
    by (simp add: processLangGraphEvent_def skip_analyst_def after_first_analyst_roster
        analyst_item_def opt_field_def strict_eq_def)
  then show ?thesis
    using after_first_analyst_roster by (simp add: after_first_analyst_def)
qed

section \<open>A batch element without its data\<close>

lemma process_items_append:
  "process_items clock names (xs @ ys) w =
     (case process_items clock names xs w of
        (Returned, w') \<Rightarrow> process_items clock names ys w'
      | (Threw e, w') \<Rightarrow> (Threw e, w'))"
  by (induction xs arbitrary: w) (auto split: prod.splits outcome.splits)

lemma missing_data_throws:
  assumes "field bad ''type'' \<in> {JStr ''analyst'', JStr ''interview'', JStr ''search'',
                                 JStr ''section'', JStr ''error''}"
      and "nullish (field bad ''data'')"
  shows "processResearchEvent clock bad w = (Threw TypeError, w)"
proof -
  obtain s where "field bad ''type'' = JStr s" using assms(1) by auto
  then have "\<not> nullish bad" by (rule field_JStr_not_nullish)
  then show ?thesis
    using assms
    by (auto simp: processResearchEvent_def research_analyst_def research_interview_def
        research_search_def research_section_def research_error_def Let_def)
qed

lemma unknown_type_returns:
  assumes "\<not> nullish unk"
      and "field unk ''type'' \<notin> {JStr ''analyst'', JStr ''progress'', JStr ''interview'',
                                  JStr ''search'', JStr ''section'', JStr ''error''}"
  shows "processResearchEvent clock unk w = (Returned, w)"
  using assms by (simp add: processResearchEvent_def)

text \<open>
  C10.  In a batch whose earlier elements were processed, an element of a kind that
  reads its data (analyst, interview, search, section, error) and has none raises a
  TypeError when it is processed (it is reached unless the duplicate test passes over
  it).  The exception leaves the batch: the state is the one the earlier elements
  left, the rest of the batch has no effect, the read loop logs the error and goes on
  with the next line.  An element of a type no case handles is passed over instead:
  the batch behaves as if it were not there.
\<close>

theorem missing_data_aborts_batch:
  assumes "process_items clock (map name (analysts (state w))) pre w = (Returned, w1)"
      and "field bad ''type'' \<in> {JStr ''analyst'', JStr ''interview'', JStr ''search'',
                                 JStr ''section'', JStr ''error''}"
      and "nullish (field bad ''data'')"
      and "\<not> skip_analyst (map name (analysts (state w))) bad"
      and "trim line \<noteq> []" "startsWith line ''data: ''"
      and "parse (drop 6 line) = Some (JArr (pre @ bad # rest))"
  shows "processResearchEvent clock bad w1 = (Threw TypeError, w1) \<and>
         processLangGraphEvent parse clock (JArr (pre @ bad # rest)) w = (Threw TypeError, w1) \<and>
         process_lines parse clock (line # lines) w =
           process_lines parse clock lines (w1\<lparr>caught := caught w1 @ [TypeError]\<rparr>) \<and>
         (\<not> nullish unk \<and>
          field unk ''type'' \<notin> {JStr ''analyst'', JStr ''progress'', JStr ''interview'',
                                  JStr ''search'', JStr ''section'', JStr ''error''} \<longrightarrow>
          processLangGraphEvent parse clock (JArr (pre @ unk # rest)) w =
            processLangGraphEvent parse clock (JArr (pre @ rest)) w)"
proof -
  let ?names = "map name (analysts (state w))"
  have a: "processResearchEvent clock bad w1 = (Threw TypeError, w1)"
    using assms(2,3) by (rule missing_data_throws)
  obtain s where "field bad ''type'' = JStr s" using assms(2) by auto
  then have nb: "\<not> nullish bad" by (rule field_JStr_not_nullish)
  have "process_items clock ?names (bad # rest) w1 = (Threw TypeError, w1)"
    using a nb assms(4) by simp
  then have items: "process_items clock ?names (pre @ bad # rest) w = (Threw TypeError, w1)"
    using assms(1) by (simp add: process_items_append)
  then have b: "processLangGraphEvent parse clock (JArr (pre @ bad # rest)) w = (Threw TypeError, w1)"
    by (simp add: processLangGraphEvent_def)
  have c: "process_lines parse clock (line # lines) w =
           process_lines parse clock lines (w1\<lparr>caught := caught w1 @ [TypeError]\<rparr>)"
    using b assms(5,6,7) by (simp add: process_line_def)
  have d: "processLangGraphEvent parse clock (JArr (pre @ unk # rest)) w =
            processLangGraphEvent parse clock (JArr (pre @ rest)) w"
    if u: "\<not> nullish unk"
      "field unk ''type'' \<notin> {JStr ''analyst'', JStr ''progress'', JStr ''interview'',
                                  JStr ''search'', JStr ''section'', JStr ''error''}"
  proof -
    have r: "processResearchEvent clock unk w1 = (Returned, w1)"
      using u by (rule unknown_type_returns)
    have ns: "\<not> skip_analyst ?names unk" using u(2) by (simp add: skip_analyst_def)
    have "process_items clock ?names (unk # rest) w1 = process_items clock ?names rest w1"
      using r u(1) ns by simp
    then have "process_items clock ?names (pre @ unk # rest) w = process_items clock ?names (pre @ rest) w"
      using assms(1) by (simp add: process_items_append)
    then show ?thesis by (simp add: processLangGraphEvent_def)
  qed
  show ?thesis using a b c d by blast
qed

lemma broken_batch_text_unfold:
  "sample_parse broken_batch_text =
     Some (JArr ([analyst_item ''A'' ''R1''] @ JObj [(''type'', JStr ''analyst'')] # [section_item]))"
  by (simp add: sample_parse_def broken_batch_text_def)

lemma first_analyst_items:
  "process_items sample_clock (map name (analysts (state (initial_world ''q''))))
     [analyst_item ''A'' ''R1''] (initial_world ''q'') = (Returned, after_first_analyst)"
  by (simp add: after_first_analyst_def processLangGraphEvent_def)
     (simp add: skip_analyst_def analyst_item_def processResearchEvent_def research_analyst_def
        Let_def initial_world_def initial_state_def)

theorem missing_data_aborts_batch_witness:
  "process_items sample_clock (map name (analysts (state (initial_world ''q''))))
     [analyst_item ''A'' ''R1''] (initial_world ''q'') = (Returned, after_first_analyst) \<and>
   field (JObj [(''type'', JStr ''analyst'')]) ''type'' \<in>
     {JStr ''analyst'', JStr ''interview'', JStr ''search'', JStr ''section'', JStr ''error''} \<and>
   nullish (field (JObj [(''type'', JStr ''analyst'')]) ''data'') \<and>
   \<not> skip_analyst (map name (analysts (state (initial_world ''q''))))
       (JObj [(''type'', JStr ''analyst'')]) \<and>
   trim (''data: '' @ broken_batch_text) \<noteq> [] \<and>
   startsWith (''data: '' @ broken_batch_text) ''data: '' \<and>
   map name (analysts (state (process_lines sample_parse sample_clock
      [''data: '' @ broken_batch_text] (initial_world ''q'')))) = [JStr ''A''] \<and>
   sections (state (process_lines sample_parse sample_clock
      [''data: '' @ broken_batch_text] (initial_world ''q''))) = [] \<and>
   caught (process_lines sample_parse sample_clock
      [''data: '' @ broken_batch_text] (initial_world ''q'')) = [TypeError] \<and>
   \<not> nullish (JObj [(''type'', JStr ''frobnicate'')]) \<and>
   sections (state (snd (processLangGraphEvent sample_parse sample_clock
      (JArr ([analyst_item ''A'' ''R1''] @ JObj [(''type'', JStr ''frobnicate'')] # [section_item]))
      (initial_world ''q'')))) = [(JStr ''A'', JStr ''Draft'')]"
proof -
  let ?w = "initial_world ''q''"
  let ?bad = "JObj [(''type'', JStr ''analyst'')]"
  let ?unk = "JObj [(''type'', JStr ''frobnicate'')]"
  let ?line = "''data: '' @ broken_batch_text"
  have h1: "process_items sample_clock (map name (analysts (state ?w)))
     [analyst_item ''A'' ''R1''] ?w = (Returned, after_first_analyst)"
    by (rule first_analyst_items)
  have h2: "field ?bad ''type'' \<in>
     {JStr ''analyst'', JStr ''interview'', JStr ''search'', JStr ''section'', JStr ''error''}"
    by simp
  have h3: "nullish (field ?bad ''data'')" by simp
  have h4: "\<not> skip_analyst (map name (analysts (state ?w))) ?bad"
    by (simp add: skip_analyst_def initial_world_def initial_state_def)
  have h5: "trim ?line \<noteq> []"
    by (simp add: trim_def is_space_def)
  have h6: "startsWith ?line ''data: ''" by (simp add: startsWith_def)
  have h7: "sample_parse (drop 6 ?line) =
      Some (JArr ([analyst_item ''A'' ''R1''] @ ?bad # [section_item]))"
    using broken_batch_text_unfold by simp
  have u1: "\<not> nullish ?unk" by simp
  have u2: "field ?unk ''type'' \<notin> {JStr ''analyst'', JStr ''progress'', JStr ''interview'',
                                  JStr ''search'', JStr ''section'', JStr ''error''}"
    by simp
  have h7': "sample_parse (drop 6 ?line) =
      Some (JArr ([analyst_item ''A'' ''R1''] @ ?bad # [section_item]))"
    using h7 .
  note t = missing_data_aborts_batch[where clock = sample_clock and w = ?w
      and pre = "[analyst_item ''A'' ''R1'']" and ?w1.0 = after_first_analyst and bad = ?bad
      and line = ?line and parse = sample_parse and rest = "[section_item]" and lines = "[]"
      and unk = ?unk, OF h1 h2 h3 h4 h5 h6 h7']
  have c: "process_lines sample_parse sample_clock [?line] ?w =
      after_first_analyst\<lparr>caught := caught after_first_analyst @ [TypeError]\<rparr>"
    using t by simp
  have d: "processLangGraphEvent sample_parse sample_clock
      (JArr ([analyst_item ''A'' ''R1''] @ ?unk # [section_item])) ?w =
      processLangGraphEvent sample_parse sample_clock
      (JArr ([analyst_item ''A'' ''R1''] @ [section_item])) ?w"
    using t u1 u2 by blast
  have ca: "caught after_first_analyst = []"
    using processLangGraphEvent_frame[of sample_parse sample_clock
        "JArr [analyst_item ''A'' ''R1'']" ?w]
    by (simp add: after_first_analyst_def initial_world_def)
  have sa: "sections (state after_first_analyst) = []"
    by (simp add: after_first_analyst_def processLangGraphEvent_def skip_analyst_def
      analyst_item_def processResearchEvent_def research_analyst_def Let_def make_analyst_def
      upsert_analyst_def set_analysts_def initial_world_def initial_state_def)
  have v: "sections (state (snd (processLangGraphEvent sample_parse sample_clock
      (JArr ([analyst_item ''A'' ''R1''] @ [section_item])) ?w))) = [(JStr ''A'', JStr ''Draft'')]"
    by (simp add: processLangGraphEvent_def skip_analyst_def section_item_def section_data_def
      analyst_item_def processResearchEvent_def research_analyst_def research_section_def
      Let_def make_analyst_def upsert_analyst_def set_analysts_def initial_world_def
      initial_state_def)
  show ?thesis
    using h1 h2 h3 h4 h5 h6 u1 c d ca sa v after_first_analyst_roster by simp
qed

section \<open>The terminal snapshot\<close>

lemma make_analyst_name [simp]: "name (make_analyst d) = field d ''name''"
  by (simp add: make_analyst_def)

lemma upsert_names_image:
  "name ` set (upsert_analyst a xs) = insert (name a) (name ` set xs)"
  using upsert_names[of a xs] by simp

lemma processResearchEvent_names:
  assumes "processResearchEvent clock e w = (Returned, w')"
  shows "roster_names w' =
           roster_names w \<union>
             (if field e ''type'' = JStr ''analyst'' then {opt_field (field e ''data'') ''name''} else {})"
proof (cases "field e ''type'' = JStr ''analyst''")
  case True
  then have nd: "\<not> nullish (field e ''data'')"
    using processResearchEvent_analyst_returned[of e clock w] assms by simp
  then show ?thesis
    using processResearchEvent_effect[of clock e w] assms True
    by (simp add: roster_names_def upsert_names_image opt_field_def)
next
  case False
  then show ?thesis
    using processResearchEvent_effect[of clock e w] assms by (simp add: roster_names_def)
qed

lemma list_ex_strict_eq_mem: "list_ex (\<lambda>n. strict_eq n x) names \<Longrightarrow> x \<in> set names"
  by (auto simp: list_ex_iff strict_eq_def)

lemma process_items_names:
  "process_items clock names items w = (Returned, w') \<Longrightarrow> set names \<subseteq> roster_names w \<Longrightarrow>
   roster_names w' = roster_names w \<union> set (batch_names items)"
proof (induction items arbitrary: w)
  case Nil
  then show ?case by (simp add: batch_names_def)
next
  case (Cons item items)
  have nn: "\<not> nullish item" using Cons.prems(1) by (auto split: if_splits)
  show ?case
  proof (cases "skip_analyst names item")
    case True
    then have rest: "process_items clock names items w = (Returned, w')"
      using Cons.prems(1) nn by simp
    have "opt_field (field item ''data'') ''name'' \<in> roster_names w"
      using True Cons.prems(2) list_ex_strict_eq_mem by (auto simp: skip_analyst_def)
    moreover have "field item ''type'' = JStr ''analyst''"
      using True by (simp add: skip_analyst_def)
    ultimately show ?thesis
      using Cons.IH[OF rest Cons.prems(2)] by (auto simp: batch_names_def)
  next
    case False
    obtain out w1 where r: "processResearchEvent clock item w = (out, w1)"
      by (cases "processResearchEvent clock item w")
    have out: "out = Returned"
      using Cons.prems(1) nn False r by (cases out) auto
    have rest: "process_items clock names items w1 = (Returned, w')"
      using Cons.prems(1) nn False r out by simp
    have n1: "roster_names w1 =
           roster_names w \<union>
             (if field item ''type'' = JStr ''analyst''
              then {opt_field (field item ''data'') ''name''} else {})"
      using processResearchEvent_names[of clock item w w1] r out by simp
    then have sub: "set names \<subseteq> roster_names w1" using Cons.prems(2) by auto
    show ?thesis
      using Cons.IH[OF rest sub] n1 by (auto simp: batch_names_def)
  qed
qed

lemma is_v5_analyst_prefixed:
  "field e ''type'' = JStr (''data-'' @ r) \<Longrightarrow> is_v5_analyst e = (r = ''analyst'')"
  using replace_first_prefix[of "''data-''" r]
  by (simp add: is_v5_analyst_def del: replace_first.simps)

lemma startsWith_split: "startsWith t p \<Longrightarrow> t = p @ drop (length p) t"
  by (metis append_take_drop_id startsWith_def)

lemma processV5DataPart_analyst_returned:
  "is_v5_analyst e \<Longrightarrow> fst (processV5DataPart clock e w) = Returned \<Longrightarrow>
   \<not> nullish (field e ''data'')"
  by (auto simp: processV5DataPart_analyst v5_analyst_def)

lemma processV5DataPart_names:
  "roster_names (snd (processV5DataPart clock e w)) =
     roster_names w \<union>
       (if is_v5_analyst e \<and> \<not> nullish (field e ''data'')
        then {field (field e ''data'') ''name''} else {})"
  using processV5DataPart_effect[of clock e w]
  by (simp add: roster_names_def upsert_names_image)

lemma process_other_object_names:
  assumes "process_other_object clock names e w = (Returned, w')"
      and "set names \<subseteq> roster_names w"
  shows "roster_names w' =
           roster_names w \<union>
             set (if field e ''type'' = JStr ''custom''
                  then (case field e ''data'' of JArr items \<Rightarrow> batch_names items | _ \<Rightarrow> [])
                  else [])"
proof (cases "field e ''type'' = JStr ''custom''")
  case True
  show ?thesis
  proof (cases "field e ''data''")
    case (JArr items)
    then have "process_items clock names items w = (Returned, w')"
      using assms(1) True by (simp add: process_other_object_def)
    then show ?thesis
      using process_items_names[OF _ assms(2)] True JArr by simp
  qed (use assms True in \<open>auto simp: process_other_object_def split: if_splits\<close>)
next
  case False
  then have "roster_names w' = roster_names w"
    using assms(1)
    by (auto simp: process_other_object_def Let_def roster_names_def writer_write_def
        split: if_splits)
  then show ?thesis using False by simp
qed

lemma truthy_opt_field: "truthy (opt_field d k) \<Longrightarrow> \<not> nullish d \<and> opt_field d k = field d k"
  by (cases "nullish d") (simp_all add: opt_field_def)

lemma process_object_names:
  assumes "process_object clock names (JObj kvs) w = (Returned, w')"
      and "set names \<subseteq> roster_names w"
  shows "roster_names w' = roster_names w \<union> set (analyst_names parse (JObj kvs))"
proof -
  let ?e = "JObj kvs"
  show ?thesis
  proof (cases "field ?e ''type''")
    case (JStr t)
    show ?thesis
    proof (cases "startsWith t ''data-''")
      case True
      then obtain r where t: "t = ''data-'' @ r" using startsWith_split by blast
      have ty: "field ?e ''type'' = JStr (''data-'' @ r)" using JStr t by simp
      have v5: "is_v5_analyst ?e = (r = ''analyst'')" using ty by (rule is_v5_analyst_prefixed)
      have nc: "t \<noteq> ''custom''" using t by auto
      have an: "analyst_names parse ?e =
                  (if r = ''analyst'' then [opt_field (field ?e ''data'') ''name''] else [])"
        using JStr t nc by (simp add: analyst_names_def del: field.simps)
      show ?thesis
      proof (cases "skip_v5_analyst names ?e")
        case skip: True
        then have same: "w' = w"
          using assms(1) JStr True by (simp add: process_object_def del: field.simps)
        have r: "r = ''analyst''" using skip ty by (simp add: skip_v5_analyst_def del: field.simps)
        have tr: "truthy (opt_field (field ?e ''data'') ''name'')"
          using skip by (simp add: skip_v5_analyst_def del: field.simps)
        have "field (field ?e ''data'') ''name'' \<in> set names"
          using skip list_ex_strict_eq_mem by (simp add: skip_v5_analyst_def del: field.simps)
        then have "opt_field (field ?e ''data'') ''name'' \<in> roster_names w"
          using truthy_opt_field[OF tr] assms(2) by auto
        then show ?thesis using same an r by auto
      next
        case noskip: False
        show ?thesis
        proof (cases "t = ''data-heartbeat''")
          case hb: True
          then have "w' = w" using assms(1) JStr True noskip
            by (simp add: process_object_def del: field.simps)
          moreover have "r \<noteq> ''analyst''" using hb t by auto
          ultimately show ?thesis using an by simp
        next
          case nhb: False
          have p: "processV5DataPart clock ?e w = (Returned, w')"
            using assms(1) JStr True noskip nhb by (simp add: process_object_def del: field.simps)
          have n: "roster_names w' =
             roster_names w \<union>
             (if is_v5_analyst ?e \<and> \<not> nullish (field ?e ''data'')
              then {field (field ?e ''data'') ''name''} else {})"
            using processV5DataPart_names[of clock ?e w] p by simp
          show ?thesis
          proof (cases "r = ''analyst''")
            case ra: True
            then have "\<not> nullish (field ?e ''data'')"
              using processV5DataPart_analyst_returned[of ?e clock w] v5 p by simp
            then show ?thesis using n v5 ra an by (simp add: opt_field_def del: field.simps)
          next
            case nra: False
            then show ?thesis using n v5 an by simp
          qed
        qed
      qed
    next
      case False
      then have nd: "t \<noteq> ''data-analyst''" by (auto simp: startsWith_def)
      have p: "process_other_object clock names ?e w = (Returned, w')"
        using assms(1) JStr False by (simp add: process_object_def del: field.simps)
      have an: "analyst_names parse ?e =
          (if field ?e ''type'' = JStr ''custom''
           then (case field ?e ''data'' of JArr items \<Rightarrow> batch_names items | _ \<Rightarrow> [])
           else [])"
        using JStr nd by (simp add: analyst_names_def del: field.simps)
      show ?thesis
        unfolding an by (rule process_other_object_names[OF p assms(2)])
    qed
  next
    case JUndef
    then have p: "process_other_object clock names ?e w = (Returned, w')"
      using assms(1) by (simp add: process_object_def del: field.simps)
    have an: "analyst_names parse ?e = []"
      using JUndef by (simp add: analyst_names_def del: field.simps)
    have "roster_names w' = roster_names w \<union>
             set (if field ?e ''type'' = JStr ''custom''
                  then (case field ?e ''data'' of JArr items \<Rightarrow> batch_names items | _ \<Rightarrow> [])
                  else [])"
      by (rule process_other_object_names[OF p assms(2)])
    then show ?thesis
      unfolding an using JUndef by (simp del: field.simps)
  next
    case JNull
    then have p: "process_other_object clock names ?e w = (Returned, w')"
      using assms(1) by (simp add: process_object_def del: field.simps)
    have an: "analyst_names parse ?e = []"
      using JNull by (simp add: analyst_names_def del: field.simps)
    have "roster_names w' = roster_names w \<union>
             set (if field ?e ''type'' = JStr ''custom''
                  then (case field ?e ''data'' of JArr items \<Rightarrow> batch_names items | _ \<Rightarrow> [])
                  else [])"
      by (rule process_other_object_names[OF p assms(2)])
    then show ?thesis
      unfolding an using JNull by (simp del: field.simps)
  qed (use assms(1) in \<open>auto simp add: process_object_def simp del: field.simps\<close>)
qed

lemma match_data_part_prefix: "match_data_part s = Some r \<Longrightarrow> startsWith s ''2:''"
  by (simp add: match_data_part_def Let_def split: if_splits)

lemma not_both_prefix: "startsWith s ''0:'' \<Longrightarrow> \<not> startsWith s ''2:''"
  "startsWith s ''3:'' \<Longrightarrow> \<not> startsWith s ''2:''"
  by (auto simp: startsWith_def)

lemma process_raw_token_names:
  "roster_names (snd (process_raw_token parse clock s w)) =
     roster_names w \<union> set (analyst_names parse (JStr s))"
proof (cases "match_data_part (trim s)")
  case None
  then have "analyst_names parse (JStr s) = []" by (simp add: analyst_names_def)
  moreover have "roster_names (snd (process_raw_token parse clock s w)) = roster_names w"
    using None by (simp add: process_raw_token_def Let_def roster_names_def split: option.splits)
  ultimately show ?thesis by simp
next
  case (Some r)
  obtain n j where r: "r = (n, j)" by (cases r)
  have two: "startsWith (trim s) ''2:''" using Some by (rule match_data_part_prefix)
  then have zero: "\<not> startsWith (trim s) ''0:''" using not_both_prefix(1) by blast
  show ?thesis
  proof (cases "parse j")
    case None
    have "process_raw_token parse clock s w = (Returned, w)"
      using \<open>match_data_part (trim s) = Some r\<close> r two zero None
      by (simp add: process_raw_token_def Let_def)
    moreover have "analyst_names parse (JStr s) = []"
      using \<open>match_data_part (trim s) = Some r\<close> r None by (simp add: analyst_names_def)
    ultimately show ?thesis by simp
  next
    case (Some d)
    let ?e = "JObj [(''type'', JStr (''data-'' @ n)), (''data'', d)]"
    have v5: "is_v5_analyst ?e = (n = ''analyst'')"
      by (rule is_v5_analyst_prefixed) simp
    have "snd (process_raw_token parse clock s w) = snd (processV5DataPart clock ?e w)"
      using \<open>match_data_part (trim s) = Some r\<close> r two zero Some
      by (simp add: process_raw_token_def Let_def)
    moreover have "analyst_names parse (JStr s) =
        (if n = ''analyst'' then (if nullish d then [] else [field d ''name'']) else [])"
      using \<open>match_data_part (trim s) = Some r\<close> r Some by (simp add: analyst_names_def)
    ultimately show ?thesis
      using processV5DataPart_names[of clock ?e w] v5 by simp
  qed
qed

lemma processLangGraphEvent_names:
  assumes "processLangGraphEvent parse clock ev w = (Returned, w')"
  shows "roster_names w' = roster_names w \<union> set (analyst_names parse ev)"
proof -
  have sub: "set (map name (analysts (state w))) \<subseteq> roster_names w"
    by (simp add: roster_names_def)
  show ?thesis
  proof (cases ev)
    case (JArr items)
    then have "process_items clock (map name (analysts (state w))) items w = (Returned, w')"
      using assms by (simp add: processLangGraphEvent_def)
    then show ?thesis
      using process_items_names[OF _ sub] JArr by (simp add: analyst_names_def)
  next
    case (JObj kvs)
    then have "process_object clock (map name (analysts (state w))) (JObj kvs) w = (Returned, w')"
      using assms by (simp add: processLangGraphEvent_def)
    then show ?thesis
      using process_object_names[OF _ sub] JObj by blast
  next
    case (JStr s)
    then have "process_raw_token parse clock s w = (Returned, w')"
      using assms by (simp add: processLangGraphEvent_def)
    then have "w' = snd (process_raw_token parse clock s w)" by simp
    then show ?thesis using process_raw_token_names[of parse clock s w] JStr by simp
  next
    case JUndef
    then show ?thesis using assms by (simp add: processLangGraphEvent_def)
  next
    case JNull
    then show ?thesis using assms by (simp add: processLangGraphEvent_def)
  next
    case (JBool b)
    then show ?thesis using assms by (auto simp: processLangGraphEvent_def analyst_names_def)
  next
    case (JNum n)
    then show ?thesis using assms by (auto simp: processLangGraphEvent_def analyst_names_def)
  qed
qed

lemma process_line_caught:
  "\<exists>xs. caught (process_line parse clock line w) = caught w @ xs"
proof (cases "trim line = []")
  case True
  then show ?thesis by (simp add: process_line_def)
next
  case ne: False
  show ?thesis
  proof (cases "startsWith line ''data: ''")
  case False
  then show ?thesis using ne by (simp add: process_line_def)
next
  case True
  show ?thesis
  proof (cases "parse (drop 6 line)")
    case None
    then show ?thesis using True by (simp add: process_line_def)
  next
    case (Some d)
    obtain out w' where r: "processLangGraphEvent parse clock d w = (out, w')"
      by (cases "processLangGraphEvent parse clock d w")
    have c: "caught w' = caught w"
      using processLangGraphEvent_frame[of parse clock d w] r by simp
    show ?thesis using ne True Some r c by (cases out) (simp_all add: process_line_def)
  qed
qed
qed

lemma process_lines_caught:
  "\<exists>xs. caught (process_lines parse clock lines w) = caught w @ xs"
proof (induction lines arbitrary: w)
  case Nil
  then show ?case by simp
next
  case (Cons l ls)
  obtain xs where a: "caught (process_line parse clock l w) = caught w @ xs"
    using process_line_caught by blast
  obtain ys where b: "caught (process_lines parse clock ls (process_line parse clock l w)) =
      caught (process_line parse clock l w) @ ys"
    using Cons.IH by blast
  show ?case using a b by simp
qed

lemma process_line_names:
  assumes "caught (process_line parse clock line w) = caught w"
  shows "roster_names (process_line parse clock line w) =
           roster_names w \<union> set (line_names parse line)"
proof (cases "trim line = []")
  case True
  then show ?thesis by (simp add: process_line_def line_names_def)
next
  case ne: False
  show ?thesis
  proof (cases "startsWith line ''data: ''")
  case False
  then show ?thesis using ne by (simp add: process_line_def line_names_def)
next
  case True
  show ?thesis
  proof (cases "parse (drop 6 line)")
    case None
    then show ?thesis using assms ne True by (simp add: process_line_def)
  next
    case (Some d)
    obtain out w' where r: "processLangGraphEvent parse clock d w = (out, w')"
      by (cases "processLangGraphEvent parse clock d w")
    have c: "caught w' = caught w"
      using processLangGraphEvent_frame[of parse clock d w] r by simp
    have out: "out = Returned"
      using assms ne True Some r c by (cases out) (simp_all add: process_line_def)
    have "process_line parse clock line w = w'"
      using ne True Some r out by (simp add: process_line_def)
    then show ?thesis
      using processLangGraphEvent_names[of parse clock d w w'] r out ne True Some
      by (simp add: line_names_def)
  qed
qed
qed

lemma process_lines_names:
  "caught w = [] \<Longrightarrow> caught (process_lines parse clock lines w) = [] \<Longrightarrow>
   roster_names (process_lines parse clock lines w) =
     roster_names w \<union> set (concat (map (line_names parse) lines))"
proof (induction lines arbitrary: w)
  case Nil
  then show ?case by simp
next
  case (Cons l ls)
  let ?w1 = "process_line parse clock l w"
  obtain ys where "caught (process_lines parse clock ls ?w1) = caught ?w1 @ ys"
    using process_lines_caught by blast
  then have c1: "caught ?w1 = []" using Cons.prems(2) by simp
  then have n1: "roster_names ?w1 = roster_names w \<union> set (line_names parse l)"
    using process_line_names[of parse clock l w] Cons.prems(1) by simp
  have "roster_names (process_lines parse clock ls ?w1) =
     roster_names ?w1 \<union> set (concat (map (line_names parse) ls))"
    using Cons.IH[OF c1] Cons.prems(2) by simp
  then show ?case using n1 by auto
qed

lemma no_shared_distinct:
  "no_shared_name xs \<Longrightarrow> list_all (\<lambda>a. is_prim (name a)) xs \<Longrightarrow> distinct (map name xs)"
  by (induction xs) (auto simp: list_ex_iff strict_eq_def list_all_iff)

lemma streamFromLangGraph_unfold:
  "streamFromLangGraph parse clock chunks w =
     writer_write
       (research_complete (state (process_lines parse clock (fst (frame_all chunks [])) w)))
       (process_lines parse clock (fst (frame_all chunks [])) w)"
  by (simp add: streamFromLangGraph_def Let_def read_loop_frame_all)

lemma research_returned:
  "(fst (research_analyst e w) = Returned) = (\<not> nullish (field e ''data''))"
  "(fst (research_interview clock e w) = Returned) = (\<not> nullish (field e ''data''))"
  "(fst (research_search e w) = Returned) = (\<not> nullish (field e ''data''))"
  "(fst (research_section e w) = Returned) = (\<not> nullish (field e ''data''))"
  "(fst (research_error e w) = Returned) = (\<not> nullish (field e ''data''))"
  "fst (research_progress e w) = Returned"
  by (simp_all add: research_analyst_def research_interview_def research_search_def
      research_section_def research_error_def research_progress_def Let_def)

lemma processResearchEvent_returned_iff:
  "(fst (processResearchEvent clock e w) = Returned) = (\<not> element_raises e)"
  by (simp add: processResearchEvent_def element_raises_def research_returned Let_def)

lemma process_items_reached:
  "process_items clock names items w = (out, w') \<Longrightarrow> set names \<subseteq> roster_names w \<Longrightarrow>
   roster_names w' = roster_names w \<union> set (reached_batch_names names items)"
proof (induction items arbitrary: w)
  case Nil
  then show ?case by simp
next
  case (Cons item items)
  show ?case
  proof (cases "nullish item")
    case True
    then show ?thesis using Cons.prems(1) by simp
  next
    case nn: False
    show ?thesis
    proof (cases "skip_analyst names item")
      case True
      then have rest: "process_items clock names items w = (out, w')"
        using Cons.prems(1) nn by simp
      have "opt_field (field item ''data'') ''name'' \<in> roster_names w"
        using True Cons.prems(2) list_ex_strict_eq_mem by (auto simp: skip_analyst_def)
      then show ?thesis
        using Cons.IH[OF rest Cons.prems(2)] nn True by auto
    next
      case False
      obtain o1 w1 where r: "processResearchEvent clock item w = (o1, w1)"
        by (cases "processResearchEvent clock item w")
      have ret: "(o1 = Returned) = (\<not> element_raises item)"
        using processResearchEvent_returned_iff[of clock item w] r by simp
      have eff: "analysts (state w1) =
         (if field item ''type'' = JStr ''analyst'' \<and> \<not> nullish (field item ''data'')
          then upsert_analyst (make_analyst (field item ''data'')) (analysts (state w))
          else analysts (state w))"
        using processResearchEvent_effect[of clock item w] r by simp
      show ?thesis
      proof (cases "element_raises item")
        case True
        then have thr: "o1 \<noteq> Returned" using ret by simp
        then have res: "w' = w1" using Cons.prems(1) nn False r by (cases o1) auto
        have "\<not> (field item ''type'' = JStr ''analyst'' \<and> \<not> nullish (field item ''data''))"
          using True nn by (auto simp: element_raises_def)
        then have "analysts (state w1) = analysts (state w)" using eff by auto
        then have "roster_names w1 = roster_names w" by (simp add: roster_names_def)
        then show ?thesis using res nn False True by simp
      next
        case nr: False
        then have o1: "o1 = Returned" using ret by simp
        have rest: "process_items clock names items w1 = (out, w')"
          using Cons.prems(1) nn False r o1 by simp
        have nd: "field item ''type'' = JStr ''analyst'' \<Longrightarrow> \<not> nullish (field item ''data'')"
          using nr by (auto simp: element_raises_def)
        have n1: "roster_names w1 =
           roster_names w \<union>
             (if field item ''type'' = JStr ''analyst''
              then {field (field item ''data'') ''name''} else {})"
          using eff nd by (auto simp: roster_names_def upsert_names_image)
        then have sub: "set names \<subseteq> roster_names w1" using Cons.prems(2) by auto
        show ?thesis
          using Cons.IH[OF rest sub] n1 nn False nr by auto
      qed
    qed
  qed
qed

lemma reached_batch_subset: "set (reached_batch_names names items) \<subseteq> set (batch_names items)"
proof (induction items)
  case Nil
  then show ?case by simp
next
  case (Cons item items)
  have a: "skip_analyst names item \<Longrightarrow> field item ''type'' = JStr ''analyst''"
    by (simp add: skip_analyst_def)
  have b: "\<not> element_raises item \<Longrightarrow> field item ''type'' = JStr ''analyst'' \<Longrightarrow>
           opt_field (field item ''data'') ''name'' = field (field item ''data'') ''name''"
    by (auto simp: element_raises_def opt_field_def)
  show ?case using Cons a b by (auto simp: batch_names_def)
qed

lemma process_other_object_reached:
  assumes "process_other_object clock names e w = (out, w')"
      and "set names \<subseteq> roster_names w"
  shows "roster_names w' =
           roster_names w \<union>
             set (if field e ''type'' = JStr ''custom''
                  then (case field e ''data'' of
                          JArr items \<Rightarrow> reached_batch_names names items | _ \<Rightarrow> [])
                  else [])"
proof (cases "field e ''type'' = JStr ''custom''")
  case True
  show ?thesis
  proof (cases "field e ''data''")
    case (JArr items)
    then have "process_items clock names items w = (out, w')"
      using assms(1) True by (simp add: process_other_object_def)
    then show ?thesis
      using process_items_reached[OF _ assms(2)] True JArr by simp
  qed (use assms True in \<open>auto simp: process_other_object_def split: if_splits\<close>)
next
  case False
  then have "roster_names w' = roster_names w"
    using assms(1)
    by (auto simp: process_other_object_def Let_def roster_names_def writer_write_def
        split: if_splits)
  then show ?thesis using False by simp
qed

lemma process_object_reached:
  assumes "process_object clock names (JObj kvs) w = (out, w')"
      and "set names \<subseteq> roster_names w"
  shows "roster_names w' = roster_names w \<union> set (reached_event_names parse names (JObj kvs))"
proof -
  let ?e = "JObj kvs"
  have other: "roster_names w' =
             roster_names w \<union>
             set (if field ?e ''type'' = JStr ''custom''
                  then (case field ?e ''data'' of
                          JArr items \<Rightarrow> reached_batch_names names items | _ \<Rightarrow> [])
                  else [])"
    if "process_other_object clock names ?e w = (out, w')"
    by (rule process_other_object_reached[OF that assms(2)])
  show ?thesis
  proof (cases "field ?e ''type''")
    case (JStr t)
    show ?thesis
    proof (cases "startsWith t ''data-''")
      case True
      then obtain r where t: "t = ''data-'' @ r" using startsWith_split by blast
      have ty: "field ?e ''type'' = JStr (''data-'' @ r)" using JStr t by simp
      have v5: "is_v5_analyst ?e = (r = ''analyst'')" using ty by (rule is_v5_analyst_prefixed)
      have nc: "t \<noteq> ''custom''" using t by auto
      have an: "reached_event_names parse names ?e =
                  (if r = ''analyst'' \<and> \<not> nullish (field ?e ''data'')
                   then [field (field ?e ''data'') ''name''] else [])"
        using JStr t nc by (simp add: reached_event_names_def del: field.simps)
      show ?thesis
      proof (cases "skip_v5_analyst names ?e")
        case skip: True
        then have same: "w' = w"
          using assms(1) JStr True by (simp add: process_object_def del: field.simps)
        have r: "r = ''analyst''" using skip ty by (simp add: skip_v5_analyst_def del: field.simps)
        have tr: "truthy (opt_field (field ?e ''data'') ''name'')"
          using skip by (simp add: skip_v5_analyst_def del: field.simps)
        have "field (field ?e ''data'') ''name'' \<in> set names"
          using skip list_ex_strict_eq_mem by (simp add: skip_v5_analyst_def del: field.simps)
        then have "field (field ?e ''data'') ''name'' \<in> roster_names w"
          using assms(2) by auto
        then show ?thesis using same an r truthy_opt_field[OF tr] by auto
      next
        case noskip: False
        show ?thesis
        proof (cases "t = ''data-heartbeat''")
          case hb: True
          then have "w' = w" using assms(1) JStr True noskip
            by (simp add: process_object_def del: field.simps)
          moreover have "r \<noteq> ''analyst''" using hb t by auto
          ultimately show ?thesis using an by simp
        next
          case nhb: False
          have p: "processV5DataPart clock ?e w = (out, w')"
            using assms(1) JStr True noskip nhb by (simp add: process_object_def del: field.simps)
          have n: "roster_names w' =
             roster_names w \<union>
             (if is_v5_analyst ?e \<and> \<not> nullish (field ?e ''data'')
              then {field (field ?e ''data'') ''name''} else {})"
            using processV5DataPart_names[of clock ?e w] p by simp
          show ?thesis using n v5 an by (auto simp del: field.simps)
        qed
      qed
    next
      case False
      then have nd: "t \<noteq> ''data-analyst''" by (auto simp: startsWith_def)
      have p: "process_other_object clock names ?e w = (out, w')"
        using assms(1) JStr False by (simp add: process_object_def del: field.simps)
      have an: "reached_event_names parse names ?e =
          (if field ?e ''type'' = JStr ''custom''
           then (case field ?e ''data'' of
                   JArr items \<Rightarrow> reached_batch_names names items | _ \<Rightarrow> [])
           else [])"
        using JStr nd by (simp add: reached_event_names_def del: field.simps)
      show ?thesis unfolding an by (rule other[OF p])
    qed
  next
    case JUndef
    then have p: "process_other_object clock names ?e w = (out, w')"
      using assms(1) by (simp add: process_object_def del: field.simps)
    have an: "reached_event_names parse names ?e = []"
      using JUndef by (simp add: reached_event_names_def del: field.simps)
    show ?thesis
      unfolding an using other[OF p] JUndef by (simp del: field.simps)
  next
    case JNull
    then have p: "process_other_object clock names ?e w = (out, w')"
      using assms(1) by (simp add: process_object_def del: field.simps)
    have an: "reached_event_names parse names ?e = []"
      using JNull by (simp add: reached_event_names_def del: field.simps)
    show ?thesis
      unfolding an using other[OF p] JNull by (simp del: field.simps)
  next
    case (JBool b)
    then have "w' = w" using assms(1) by (simp add: process_object_def del: field.simps)
    moreover have "reached_event_names parse names ?e = []"
      using JBool by (simp add: reached_event_names_def del: field.simps)
    ultimately show ?thesis by simp
  next
    case (JNum n)
    then have "w' = w" using assms(1) by (simp add: process_object_def del: field.simps)
    moreover have "reached_event_names parse names ?e = []"
      using JNum by (simp add: reached_event_names_def del: field.simps)
    ultimately show ?thesis by simp
  next
    case (JArr xs)
    then have "w' = w" using assms(1) by (simp add: process_object_def del: field.simps)
    moreover have "reached_event_names parse names ?e = []"
      using JArr by (simp add: reached_event_names_def del: field.simps)
    ultimately show ?thesis by simp
  next
    case (JObj xs)
    then have "w' = w" using assms(1) by (simp add: process_object_def del: field.simps)
    moreover have "reached_event_names parse names ?e = []"
      using JObj by (simp add: reached_event_names_def del: field.simps)
    ultimately show ?thesis by simp
  qed
qed

lemma processLangGraphEvent_reached:
  assumes "processLangGraphEvent parse clock ev w = (out, w')"
  shows "roster_names w' =
           roster_names w \<union>
             set (reached_event_names parse (map name (analysts (state w))) ev)"
proof -
  have sub: "set (map name (analysts (state w))) \<subseteq> roster_names w"
    by (simp add: roster_names_def)
  show ?thesis
  proof (cases ev)
    case (JArr items)
    then have "process_items clock (map name (analysts (state w))) items w = (out, w')"
      using assms by (simp add: processLangGraphEvent_def)
    then show ?thesis
      using process_items_reached[OF _ sub] JArr by (simp add: reached_event_names_def)
  next
    case (JObj kvs)
    then have "process_object clock (map name (analysts (state w))) (JObj kvs) w = (out, w')"
      using assms by (simp add: processLangGraphEvent_def)
    then show ?thesis
      using process_object_reached[OF _ sub] JObj by blast
  next
    case (JStr s)
    then have "process_raw_token parse clock s w = (out, w')"
      using assms by (simp add: processLangGraphEvent_def)
    then have "w' = snd (process_raw_token parse clock s w)" by simp
    then show ?thesis
      using process_raw_token_names[of parse clock s w] JStr
      by (simp add: reached_event_names_def)
  next
    case JUndef
    then show ?thesis using assms by (auto simp: processLangGraphEvent_def reached_event_names_def)
  next
    case JNull
    then show ?thesis using assms by (auto simp: processLangGraphEvent_def reached_event_names_def)
  next
    case (JBool b)
    then show ?thesis using assms by (auto simp: processLangGraphEvent_def reached_event_names_def)
  next
    case (JNum n)
    then show ?thesis using assms by (auto simp: processLangGraphEvent_def reached_event_names_def)
  qed
qed

lemma roster_names_caught [simp]: "roster_names (w\<lparr>caught := c\<rparr>) = roster_names w"
  by (simp add: roster_names_def)

lemma process_line_reached:
  "roster_names (process_line parse clock line w) =
     roster_names w \<union> set (reached_line_names parse (map name (analysts (state w))) line)"
proof (cases "trim line = []")
  case True
  then show ?thesis by (simp add: process_line_def reached_line_names_def)
next
  case ne: False
  show ?thesis
  proof (cases "startsWith line ''data: ''")
    case False
    then show ?thesis using ne by (simp add: process_line_def reached_line_names_def)
  next
    case True
    show ?thesis
    proof (cases "parse (drop 6 line)")
      case None
      then show ?thesis using ne True by (simp add: process_line_def reached_line_names_def)
    next
      case (Some d)
      obtain out w' where r: "processLangGraphEvent parse clock d w = (out, w')"
        by (cases "processLangGraphEvent parse clock d w")
      have n: "roster_names w' =
           roster_names w \<union> set (reached_event_names parse (map name (analysts (state w))) d)"
        using r by (rule processLangGraphEvent_reached)
      have "roster_names (process_line parse clock line w) = roster_names w'"
        using ne True Some r by (cases out) (simp_all add: process_line_def)
      then show ?thesis using n ne True Some by (simp add: reached_line_names_def)
    qed
  qed
qed

lemma process_lines_reached:
  "roster_names (process_lines parse clock lines w) =
     roster_names w \<union> set (reached_lines_names parse clock lines w)"
  by (induction lines arbitrary: w) (auto simp: process_line_reached)

lemma reached_event_subset:
  "set (reached_event_names parse names ev) \<subseteq> set (analyst_names parse ev)"
proof (cases ev)
  case (JArr items)
  then show ?thesis
    using reached_batch_subset by (simp add: reached_event_names_def analyst_names_def)
next
  case (JObj kvs)
  have arr: "set (case field ev ''data'' of JArr items \<Rightarrow> reached_batch_names names items | _ \<Rightarrow> [])
        \<subseteq> set (case field ev ''data'' of JArr items \<Rightarrow> batch_names items | _ \<Rightarrow> [])"
  proof (cases "field ev ''data''")
    case (JArr items)
    then show ?thesis using reached_batch_subset by simp
  qed simp_all
  show ?thesis
  proof (cases "field ev ''type''")
    case (JStr t)
    have r: "reached_event_names parse names ev =
        (if t = ''data-analyst''
         then (if nullish (field ev ''data'') then [] else [field (field ev ''data'') ''name''])
         else if t = ''custom''
         then (case field ev ''data'' of JArr items \<Rightarrow> reached_batch_names names items | _ \<Rightarrow> [])
         else [])"
      using JObj JStr by (simp add: reached_event_names_def del: field.simps)
    have a: "analyst_names parse ev =
        (if t = ''data-analyst'' then [opt_field (field ev ''data'') ''name'']
         else if t = ''custom''
         then (case field ev ''data'' of JArr items \<Rightarrow> batch_names items | _ \<Rightarrow> [])
         else [])"
      using JObj JStr by (simp add: analyst_names_def del: field.simps)
    show ?thesis
    proof (cases "t = ''data-analyst''")
      case True
      then show ?thesis unfolding r a by (simp add: opt_field_def)
    next
      case nd: False
      show ?thesis
      proof (cases "t = ''custom''")
        case True
        then show ?thesis unfolding r a using arr nd by simp
      next
        case False
        then show ?thesis unfolding r a using nd by simp
      qed
    qed
  next
    case JUndef
    then show ?thesis using JObj by (simp add: reached_event_names_def del: field.simps)
  next
    case JNull
    then show ?thesis using JObj by (simp add: reached_event_names_def del: field.simps)
  next
    case (JBool b)
    then show ?thesis using JObj by (simp add: reached_event_names_def del: field.simps)
  next
    case (JNum n)
    then show ?thesis using JObj by (simp add: reached_event_names_def del: field.simps)
  next
    case (JArr xs)
    then show ?thesis using JObj by (simp add: reached_event_names_def del: field.simps)
  next
    case (JObj xs)
    then show ?thesis
      using \<open>ev = JObj kvs\<close> by (simp add: reached_event_names_def del: field.simps)
  qed
qed (simp_all add: reached_event_names_def)

lemma reached_line_subset:
  "set (reached_line_names parse names line) \<subseteq> set (line_names parse line)"
proof (cases "trim line = []")
  case True
  then show ?thesis by (simp add: reached_line_names_def line_names_def)
next
  case ne: False
  show ?thesis
  proof (cases "startsWith line ''data: ''")
    case False
    then show ?thesis using ne by (simp add: reached_line_names_def line_names_def)
  next
    case True
    show ?thesis
    proof (cases "parse (drop 6 line)")
      case None
      then show ?thesis using ne True by (simp add: reached_line_names_def line_names_def)
    next
      case (Some d)
      then show ?thesis
        using reached_event_subset[of parse names d] ne True
        by (simp add: reached_line_names_def line_names_def)
    qed
  qed
qed

lemma reached_lines_subset:
  "set (reached_lines_names parse clock lines w) \<subseteq> set (concat (map (line_names parse) lines))"
proof (induction lines arbitrary: w)
  case Nil
  then show ?case by simp
next
  case (Cons l ls)
  show ?case using Cons[of "process_line parse clock l w"] reached_line_subset[of parse _ l] by auto
qed

text \<open>
  C5, as the code has it.  A stream that ends normally ends with one write of the
  terminal part: it is the only such part in the sink, its phase is \<open>completed\<close> and it
  carries the roster, the transcripts, the sections and the searches of the state the
  loop left, which it does not change.  The roster has as many entries as there are
  distinct names among the Analyst events the processing reached (names being primitive
  values, as strings are); these are among the Analyst events of the stream, and are all
  of them when no line's processing was logged as failed.
\<close>

theorem terminal_snapshot:
  "state (streamFromLangGraph parse clock chunks (initial_world q)) =
     state (snd (read_loop parse clock chunks [] (initial_world q))) \<and>
   written (streamFromLangGraph parse clock chunks (initial_world q)) =
     written (snd (read_loop parse clock chunks [] (initial_world q))) @
       [research_complete (state (snd (read_loop parse clock chunks [] (initial_world q))))] \<and>
   filter is_complete (written (streamFromLangGraph parse clock chunks (initial_world q))) =
     [research_complete (state (streamFromLangGraph parse clock chunks (initial_world q)))] \<and>
   research_complete (state (streamFromLangGraph parse clock chunks (initial_world q))) =
     Data_part ''data-research-complete''
       (P_complete (JStr ''completed'')
          (analysts (state (streamFromLangGraph parse clock chunks (initial_world q))))
          (interviews (state (streamFromLangGraph parse clock chunks (initial_world q))))
          (sections (state (streamFromLangGraph parse clock chunks (initial_world q))))
          (searches (state (streamFromLangGraph parse clock chunks (initial_world q)))))
       False \<and>
   (list_all is_prim (reached_names parse clock chunks (initial_world q)) \<longrightarrow>
    length (analysts (state (streamFromLangGraph parse clock chunks (initial_world q)))) =
      card (set (reached_names parse clock chunks (initial_world q)))) \<and>
   set (reached_names parse clock chunks (initial_world q)) \<subseteq> set (stream_names parse chunks) \<and>
   (caught (streamFromLangGraph parse clock chunks (initial_world q)) = [] \<longrightarrow>
    set (reached_names parse clock chunks (initial_world q)) = set (stream_names parse chunks)) \<and>
   (caught (streamFromLangGraph parse clock chunks (initial_world q)) = [] \<and>
    list_all is_prim (stream_names parse chunks) \<longrightarrow>
    length (analysts (state (streamFromLangGraph parse clock chunks (initial_world q)))) =
      card (set (stream_names parse chunks)))"
proof -
  let ?w = "initial_world q"
  let ?lines = "fst (frame_all chunks [])"
  let ?loop = "process_lines parse clock ?lines ?w"
  let ?final = "streamFromLangGraph parse clock chunks ?w"
  let ?reached = "reached_names parse clock chunks ?w"
  have fin: "?final = writer_write (research_complete (state ?loop)) ?loop"
    by (rule streamFromLangGraph_unfold)
  have rl: "snd (read_loop parse clock chunks [] ?w) = ?loop"
    by (simp add: read_loop_frame_all)
  have a: "state ?final = state ?loop" by (simp add: fin)
  have b: "written ?final = written ?loop @ [research_complete (state ?loop)]"
    by (simp add: fin writer_write_def)
  have c0: "filter is_complete (written ?loop) = []"
    by (simp add: process_lines_frame initial_world_def is_complete_def)
  have ic: "is_complete (research_complete st)" for st
    by (simp add: research_complete_def is_complete_def)
  have c: "filter is_complete (written ?final) = [research_complete (state ?final)]"
    using c0 ic by (simp add: b a)
  have r0: "roster_names ?w = {}"
    by (simp add: roster_names_def initial_world_def initial_state_def)
  have names: "roster_names ?loop = set ?reached"
    using process_lines_reached[of parse clock ?lines ?w] r0 by (simp add: reached_names_def)
  have inv: "no_shared_name (analysts (state ?loop))"
    using process_lines_inv[of no_shared_name ?w parse clock ?lines] upsert_no_shared
    by (simp add: initial_world_def initial_state_def)
  have count: "length (analysts (state ?final)) = card (set ?reached)"
    if h: "list_all is_prim ?reached"
  proof -
    have prim: "list_all (\<lambda>a. is_prim (name a)) (analysts (state ?loop))"
      using names h by (auto simp: list_all_iff roster_names_def)
    have "distinct (map name (analysts (state ?loop)))"
      using inv prim by (rule no_shared_distinct)
    then have "length (analysts (state ?loop)) = card (set (map name (analysts (state ?loop))))"
      using distinct_card[of "map name (analysts (state ?loop))"] by simp
    then show ?thesis using names by (simp add: a roster_names_def)
  qed
  have sub: "set ?reached \<subseteq> set (stream_names parse chunks)"
    using reached_lines_subset[of parse clock ?lines ?w]
    by (simp add: reached_names_def stream_names_def)
  have eq: "set ?reached = set (stream_names parse chunks)" if h: "caught ?final = []"
  proof -
    have cl: "caught ?loop = []" using h by (simp add: fin)
    have cw: "caught ?w = []" by (simp add: initial_world_def)
    have "roster_names ?loop = set (stream_names parse chunks)"
      using process_lines_names[OF cw cl] r0 by (simp add: stream_names_def)
    then show ?thesis using names by simp
  qed
  have old: "length (analysts (state ?final)) = card (set (stream_names parse chunks))"
    if h: "caught ?final = []" "list_all is_prim (stream_names parse chunks)"
  proof -
    have e: "set ?reached = set (stream_names parse chunks)" using h(1) by (rule eq)
    then have "list_all is_prim ?reached" using h(2) by (simp add: list_all_iff)
    then show ?thesis using count e by simp
  qed
  show ?thesis
    using a b c count sub eq old rl by (simp add: research_complete_def)
qed

lemma split_nl_line: "CHR 0x0A \<notin> set a \<Longrightarrow> split_nl (a @ CHR 0x0A # b) = a # split_nl b"
  using split_nl_append[of a "CHR 0x0A # b"] by (simp add: split_nl_no_nl)

lemma sample_lines:
  "fst (frame_all sample_chunks []) = [sample_line1, sample_line2]"
proof -
  have c: "concat sample_chunks = sample_line1 @ CHR 0x0A # sample_line2 @ CHR 0x0A # []"
    by (simp add: sample_chunks_def sample_line2_def)
  have n1: "CHR 0x0A \<notin> set sample_line1"
    by (simp add: sample_line1_def two_analysts_text_def)
  have n2: "CHR 0x0A \<notin> set sample_line2"
    by (simp add: sample_line2_def discrete_analyst_text_def)
  have "split_nl (concat sample_chunks) = [sample_line1, sample_line2, []]"
    unfolding c by (simp add: split_nl_line[OF n1] split_nl_line[OF n2])
  then show ?thesis by (simp add: frame_all_eq)
qed

lemma sample_line1_parse:
  "trim sample_line1 \<noteq> [] \<and> startsWith sample_line1 ''data: '' \<and>
   sample_parse (drop 6 sample_line1) =
     Some (JArr [analyst_item ''A'' ''R1'', analyst_item ''A'' ''R2''])"
proof -
  have "trim sample_line1 = sample_line1"
    by (rule trim_id) (simp_all add: sample_line1_def two_analysts_text_def is_space_def)
  moreover have "sample_line1 \<noteq> []" by (simp add: sample_line1_def)
  moreover have "drop 6 sample_line1 = two_analysts_text" by (simp add: sample_line1_def)
  moreover have "sample_parse two_analysts_text =
     Some (JArr [analyst_item ''A'' ''R1'', analyst_item ''A'' ''R2''])"
    by (simp add: sample_parse_def two_analysts_text_def broken_batch_text_def
        discrete_analyst_text_def)
  ultimately show ?thesis by (simp add: startsWith_def sample_line1_def)
qed

lemma sample_line2_parse:
  "trim sample_line2 \<noteq> [] \<and> startsWith sample_line2 ''data: '' \<and>
   sample_parse (drop 6 sample_line2) = Some discrete_analyst"
proof -
  have "trim sample_line2 = sample_line2"
    by (rule trim_id) (simp_all add: sample_line2_def discrete_analyst_text_def is_space_def)
  moreover have "sample_line2 \<noteq> []" by (simp add: sample_line2_def)
  moreover have "drop 6 sample_line2 = discrete_analyst_text" by (simp add: sample_line2_def)
  moreover have "sample_parse discrete_analyst_text = Some discrete_analyst"
    by (simp add: sample_parse_def broken_batch_text_def discrete_analyst_text_def)
  ultimately show ?thesis by (simp add: startsWith_def sample_line2_def)
qed

lemma sample_names:
  "stream_names sample_parse sample_chunks = [JStr ''A'', JStr ''A'', JStr ''B'']"
  using sample_line1_parse sample_line2_parse
  by (simp add: stream_names_def sample_lines line_names_def analyst_names_def batch_names_def
      analyst_item_def discrete_analyst_def opt_field_def)

lemma sample_step1:
  "process_line sample_parse sample_clock sample_line1 (initial_world ''q'') = after_batch"
  using sample_line1_parse
  by (simp add: process_line_def processLangGraphEvent_def skip_analyst_def analyst_item_def
      processResearchEvent_def research_analyst_def Let_def make_analyst_def upsert_analyst_def
      set_analysts_def writer_write_def opt_field_def strict_eq_def
      initial_world_def initial_state_def after_batch_def)

lemma sample_step2:
  "caught (process_line sample_parse sample_clock sample_line2 after_batch) = [] \<and>
   analysts (state (process_line sample_parse sample_clock sample_line2 after_batch)) =
     [\<lparr>name = JStr ''A'', role = JStr ''R2'', affiliation = JUndef, esgFocus = JUndef,
       esgCategories = JUndef\<rparr>,
      \<lparr>name = JStr ''B'', role = JUndef, affiliation = JUndef, esgFocus = JUndef,
       esgCategories = JUndef\<rparr>]"
  using sample_line2_parse
  by (simp add: process_line_def processLangGraphEvent_def process_object_def
      skip_v5_analyst_def discrete_analyst_def processV5DataPart_def v5_analyst_def
      startsWith_def Let_def make_analyst_def upsert_analyst_def
      set_analysts_def writer_write_def opt_field_def strict_eq_def
      initial_world_def initial_state_def after_batch_def)

lemma single_line_chunk:
  "CHR 0x0A \<notin> set l \<Longrightarrow> fst (frame_all [l @ [CHR 0x0A]] []) = [l]"
  using split_nl_line[of l "[]"] by (simp add: frame_def)

lemma lost_line_parse:
  "trim lost_line \<noteq> [] \<and> startsWith lost_line ''data: '' \<and>
   sample_parse (drop 6 lost_line) =
     Some (JArr [JObj [(''type'', JStr ''interview'')], analyst_item ''B'' ''R''])"
proof -
  have "trim lost_line = lost_line"
    by (rule trim_id) (simp_all add: lost_line_def lost_analyst_text_def is_space_def)
  moreover have "lost_line \<noteq> []" by (simp add: lost_line_def)
  moreover have "drop 6 lost_line = lost_analyst_text" by (simp add: lost_line_def)
  moreover have "sample_parse lost_analyst_text =
     Some (JArr [JObj [(''type'', JStr ''interview'')], analyst_item ''B'' ''R''])"
    by (simp add: sample_parse_def two_analysts_text_def broken_batch_text_def
        discrete_analyst_text_def lost_analyst_text_def)
  ultimately show ?thesis by (simp add: startsWith_def lost_line_def)
qed

lemma lost_lines: "fst (frame_all lost_chunks []) = [lost_line]"
  unfolding lost_chunks_def
  by (rule single_line_chunk) (simp add: lost_line_def lost_analyst_text_def)

lemma broken_line_parse:
  "trim broken_line \<noteq> [] \<and> startsWith broken_line ''data: '' \<and>
   sample_parse (drop 6 broken_line) =
     Some (JArr [analyst_item ''A'' ''R1'', JObj [(''type'', JStr ''analyst'')], section_item])"
proof -
  have "trim broken_line = broken_line"
    by (rule trim_id) (simp_all add: broken_line_def broken_batch_text_def is_space_def)
  moreover have "broken_line \<noteq> []" by (simp add: broken_line_def)
  moreover have "drop 6 broken_line = broken_batch_text" by (simp add: broken_line_def)
  moreover have "sample_parse broken_batch_text =
     Some (JArr [analyst_item ''A'' ''R1'', JObj [(''type'', JStr ''analyst'')], section_item])"
    by (simp add: sample_parse_def broken_batch_text_def)
  ultimately show ?thesis by (simp add: startsWith_def broken_line_def)
qed

lemma mixed_lines: "fst (frame_all mixed_chunks []) = [broken_line, sample_line2]"
proof -
  have c: "concat mixed_chunks = broken_line @ CHR 0x0A # sample_line2 @ CHR 0x0A # []"
    by (simp add: mixed_chunks_def)
  have n1: "CHR 0x0A \<notin> set broken_line"
    by (simp add: broken_line_def broken_batch_text_def)
  have n2: "CHR 0x0A \<notin> set sample_line2"
    by (simp add: sample_line2_def discrete_analyst_text_def)
  have "split_nl (concat mixed_chunks) = [broken_line, sample_line2, []]"
    unfolding c by (simp add: split_nl_line[OF n1] split_nl_line[OF n2])
  then show ?thesis by (simp add: frame_all_eq)
qed

lemma mixed_reached:
  "reached_names sample_parse sample_clock mixed_chunks (initial_world ''q'') =
     [JStr ''A'', JStr ''B'']"
proof -
  have l1: "reached_line_names sample_parse (map name (analysts (state (initial_world ''q''))))
      broken_line = [JStr ''A'']"
    using broken_line_parse
    by (simp add: reached_line_names_def reached_event_names_def skip_analyst_def
        element_raises_def analyst_item_def initial_world_def initial_state_def)
  have l2: "reached_line_names sample_parse names sample_line2 = [JStr ''B'']" for names
    using sample_line2_parse
    by (simp add: reached_line_names_def reached_event_names_def discrete_analyst_def)
  show ?thesis by (simp add: reached_names_def mixed_lines l1 l2)
qed

lemma mixed_names:
  "stream_names sample_parse mixed_chunks = [JStr ''A'', JUndef, JStr ''B'']"
  using broken_line_parse sample_line2_parse
  by (simp add: stream_names_def mixed_lines line_names_def analyst_names_def batch_names_def
      analyst_item_def section_item_def discrete_analyst_def opt_field_def)

theorem terminal_snapshot_witness:
  "list_all is_prim (reached_names sample_parse sample_clock mixed_chunks (initial_world ''q'')) \<and>
   reached_names sample_parse sample_clock mixed_chunks (initial_world ''q'') =
     [JStr ''A'', JStr ''B''] \<and>
   stream_names sample_parse mixed_chunks = [JStr ''A'', JUndef, JStr ''B''] \<and>
   length (analysts (state (streamFromLangGraph sample_parse sample_clock mixed_chunks
      (initial_world ''q'')))) = 2 \<and>
   caught (streamFromLangGraph sample_parse sample_clock sample_chunks (initial_world ''q'')) = [] \<and>
   list_all is_prim (stream_names sample_parse sample_chunks) \<and>
   stream_names sample_parse sample_chunks = [JStr ''A'', JStr ''A'', JStr ''B''] \<and>
   map name (analysts (state (streamFromLangGraph sample_parse sample_clock sample_chunks
      (initial_world ''q'')))) = [JStr ''A'', JStr ''B''] \<and>
   length (analysts (state (streamFromLangGraph sample_parse sample_clock sample_chunks
      (initial_world ''q'')))) = card (set (stream_names sample_parse sample_chunks)) \<and>
   set (reached_names sample_parse sample_clock sample_chunks (initial_world ''q'')) =
     set (stream_names sample_parse sample_chunks)"
proof -
  let ?final = "streamFromLangGraph sample_parse sample_clock sample_chunks (initial_world ''q'')"
  let ?w2 = "process_line sample_parse sample_clock sample_line2 after_batch"
  have fin: "?final = writer_write (research_complete (state ?w2)) ?w2"
    by (simp add: streamFromLangGraph_unfold sample_lines sample_step1)
  have h1: "caught ?final = []" using sample_step2 by (simp add: fin)
  have h2: "list_all is_prim (stream_names sample_parse sample_chunks)"
    by (simp add: sample_names)
  have n: "map name (analysts (state ?final)) = [JStr ''A'', JStr ''B'']"
    using sample_step2 by (simp add: fin)
  note t = terminal_snapshot[of sample_parse sample_clock sample_chunks "''q''"]
  have o: "length (analysts (state ?final)) = card (set (stream_names sample_parse sample_chunks))"
    using t h1 h2 by blast
  have e: "set (reached_names sample_parse sample_clock sample_chunks (initial_world ''q'')) =
     set (stream_names sample_parse sample_chunks)"
    using t h1 by blast
  have g1: "list_all is_prim (reached_names sample_parse sample_clock mixed_chunks (initial_world ''q''))"
    by (simp add: mixed_reached)
  note t' = terminal_snapshot[of sample_parse sample_clock mixed_chunks "''q''"]
  have "length (analysts (state (streamFromLangGraph sample_parse sample_clock mixed_chunks
      (initial_world ''q'')))) =
      card (set (reached_names sample_parse sample_clock mixed_chunks (initial_world ''q'')))"
    using t' g1 by blast
  then have m: "length (analysts (state (streamFromLangGraph sample_parse sample_clock mixed_chunks
      (initial_world ''q'')))) = 2"
    by (simp add: mixed_reached)
  show ?thesis using h1 h2 n o e g1 m mixed_reached mixed_names sample_names by simp
qed

text \<open>
  C5 as the specification states it, counting every Analyst event of the stream, fails:
  a batch whose first element raises ends the line before its Analyst element is
  reached, and the stream ends normally with an empty roster.
\<close>

theorem lost_analyst_counterexample:
  "analysts (state (streamFromLangGraph sample_parse sample_clock lost_chunks
      (initial_world ''q''))) = [] \<and>
   caught (streamFromLangGraph sample_parse sample_clock lost_chunks (initial_world ''q'')) =
     [TypeError] \<and>
   stream_names sample_parse lost_chunks = [JStr ''B'']"
proof -
  have ev: "processLangGraphEvent sample_parse sample_clock
      (JArr [JObj [(''type'', JStr ''interview'')], analyst_item ''B'' ''R'']) (initial_world ''q'') =
      (Threw TypeError, initial_world ''q'')"
    by (simp add: processLangGraphEvent_def skip_analyst_def processResearchEvent_def
        research_interview_def Let_def)
  have line: "process_line sample_parse sample_clock lost_line (initial_world ''q'') =
      (initial_world ''q'')\<lparr>caught := caught (initial_world ''q'') @ [TypeError]\<rparr>"
    using lost_line_parse ev by (simp add: process_line_def)
  have a: "analysts (state (streamFromLangGraph sample_parse sample_clock lost_chunks
      (initial_world ''q''))) = []"
    by (simp add: streamFromLangGraph_unfold lost_lines line)
       (simp add: initial_world_def initial_state_def)
  have c: "caught (streamFromLangGraph sample_parse sample_clock lost_chunks (initial_world ''q'')) =
     [TypeError]"
    by (simp add: streamFromLangGraph_unfold lost_lines line)
       (simp add: initial_world_def)
  have n: "stream_names sample_parse lost_chunks = [JStr ''B'']"
    using lost_line_parse
    by (simp add: stream_names_def lost_lines line_names_def analyst_names_def batch_names_def
        analyst_item_def opt_field_def)
  show ?thesis using a c n by simp
qed

end
